theory Spec2Isabelle
  imports Complex_Main "HOL-Library.Log_Nat"
begin

section \<open>Pagination request and response (pagination.go)\<close>

text \<open>
  Go's \<open>int\<close> and \<open>int64\<close> are modelled as \<open>int\<close>; the platform is taken to be a
  64-bit one, where both range over \<open>-2^63 .. 2^63 - 1\<close> and the conversion
  \<open>int(totalCount)\<close> is the identity. Strings are byte lists.

  The two structs share the field names \<open>Page\<close>, \<open>PerPage\<close> and \<open>IsDisabled\<close>. The
  response is declared first, so an unqualified name is a field of the request and a
  field of the response is written \<open>PaginationResponse.Page\<close>.
\<close>

record PaginationResponse =
  Page :: int
  PerPage :: int
  MaxPage :: int
  Total :: int
  IsDisabled :: bool

record PaginationRequest =
  Page :: int
  PerPage :: int
  Search :: string
  Sort :: string
  Order :: string
  IsDisabled :: bool

text \<open>\<open>Data\<close> is an \<open>interface{}\<close>: \<open>None\<close> is Go's \<open>nil\<close>.\<close>

record 'a PaginatedResponse =
  Code :: int
  Status :: string
  Message :: string
  Data :: "'a option"
  Pagination :: PaginationResponse

text \<open>The zero value \<open>PaginationResponse{}\<close>.\<close>

definition PaginationResponse_zero :: PaginationResponse where
  "PaginationResponse_zero =
    \<lparr>PaginationResponse.Page = 0, PerPage = 0, MaxPage = 0, Total = 0, IsDisabled = False\<rparr>"

text \<open>\<open>func (p *PaginationRequest) Validate()\<close>: the receiver is returned updated.\<close>

definition Validate :: "PaginationRequest \<Rightarrow> PaginationRequest" where
  "Validate p =
    (let p1 = (if Page p \<le> 0 then p\<lparr>Page := 1\<rparr> else p);
         p2 = (if PerPage p1 \<le> 0 then p1\<lparr>PerPage := 10\<rparr> else p1);
         p3 = (if Order p2 = '''' then p2\<lparr>Order := ''asc''\<rparr> else p2);
         p4 = (if Order p3 \<noteq> ''asc'' \<and> Order p3 \<noteq> ''desc''
               then p3\<lparr>Order := ''asc''\<rparr> else p3)
     in p4)"

subsection \<open>The request's query parameters\<close>

text \<open>
  Of \<open>*gin.Context\<close> the binding reads only \<open>ctx.Query(key)\<close>: the first value of the URL
  parameter \<open>key\<close>, and the empty string when there is none.
\<close>

type_synonym Context = "string \<rightharpoonup> string"

definition Query :: "Context \<Rightarrow> string \<Rightarrow> string" where
  "Query ctx key = (case ctx key of None \<Rightarrow> '''' | Some v \<Rightarrow> v)"

text \<open>
  \<open>strconv.Atoi\<close>: an optional sign, then one or more decimal digits, and a value in the
  range of \<open>int\<close>; every other string is an error (\<open>None\<close>).
\<close>

definition is_digit :: "char \<Rightarrow> bool" where
  "is_digit c = (48 \<le> (of_char c :: nat) \<and> (of_char c :: nat) \<le> 57)"

fun parse_digits :: "int \<Rightarrow> string \<Rightarrow> int option" where
  "parse_digits acc [] = Some acc"
| "parse_digits acc (c # cs) =
    (if is_digit c then parse_digits (acc * 10 + (int (of_char c) - 48)) cs else None)"

definition Atoi :: "string \<Rightarrow> int option" where
  "Atoi s =
    (case s of
       [] \<Rightarrow> None
     | c # cs \<Rightarrow>
        (let neg = (c = CHR ''-'');
             ds = (if c = CHR ''-'' \<or> c = CHR ''+'' then cs else s)
         in if ds = [] then None
            else (case parse_digits 0 ds of
                    None \<Rightarrow> None
                  | Some n \<Rightarrow>
                     (let v = (if neg then - n else n)
                      in if - (2 ^ 63) \<le> v \<and> v < 2 ^ 63 then Some v else None))))"

text \<open>
  \<open>strings.ToLower\<close> on the ASCII letters. Of the runes outside ASCII, Go lowers only
  U+0130 and U+212A to ASCII letters (\<open>i\<close> and \<open>k\<close>), and neither letter occurs in the
  words \<open>BindPagination\<close> compares the result with.
\<close>

definition ToLower :: "string \<Rightarrow> string" where
  "ToLower s =
    map (\<lambda>c. if 65 \<le> (of_char c :: nat) \<and> (of_char c :: nat) \<le> 90
              then char_of ((of_char c :: nat) + 32) else c) s"

definition BindPagination :: "Context \<Rightarrow> PaginationRequest" where
  "BindPagination ctx =
    (let pagination = \<lparr>Page = 1, PerPage = 10, Search = '''', Sort = '''', Order = ''asc'',
                        IsDisabled = False\<rparr>;
         pageStr = Query ctx ''page'';
         pagination =
           (if pageStr \<noteq> '''' then
              (case Atoi pageStr of
                 Some page \<Rightarrow> if page > 0 then pagination\<lparr>Page := page\<rparr> else pagination
               | None \<Rightarrow> pagination)
            else pagination);
         perPageStr = Query ctx ''per_page'';
         pagination =
           (if perPageStr \<noteq> '''' then
              (case Atoi perPageStr of
                 Some perPage \<Rightarrow>
                   if perPage > 0 \<and> perPage \<le> 100 then pagination\<lparr>PerPage := perPage\<rparr>
                   else pagination
               | None \<Rightarrow> pagination)
            else pagination);
         pagination = pagination\<lparr>Search := Query ctx ''search''\<rparr>;
         pagination = pagination\<lparr>Sort := Query ctx ''sort''\<rparr>;
         order = Query ctx ''order'';
         pagination =
           (if order = ''desc'' \<or> order = ''asc'' then pagination\<lparr>Order := order\<rparr>
            else pagination);
         isDisabled = Query ctx ''is_disabled'';
         pagination =
           (if isDisabled \<noteq> '''' then
              (if ToLower isDisabled \<in> set [''1'', ''true'', ''yes'', ''y'', ''on'']
               then pagination\<lparr>IsDisabled := True\<rparr>
               else pagination\<lparr>IsDisabled := False\<rparr>)
            else pagination)
     in Validate pagination)"

subsection \<open>Binary64 arithmetic\<close>

text \<open>
  \<open>CalculatePagination\<close> computes the page count in \<open>float64\<close>. A finite binary64 value is
  held as the rational it denotes; the sign of a zero is not kept, as nothing below
  distinguishes the two zeros (every divisor is converted from an integer, and so is
  never the negative zero).
\<close>

datatype float64 = Finite rat | PosInf | NegInf | NaN

definition round_half_even :: "rat \<Rightarrow> int" where
  "round_half_even x =
    (let f = \<lfloor>x\<rfloor>; d = x - of_int f
     in if d < 1 / 2 then f else if 1 / 2 < d then f + 1 else if even f then f else f + 1)"

text \<open>For \<open>x > 0\<close>, \<open>binade x\<close> is the exponent \<open>e\<close> with \<open>2^e \<le> x < 2^(e+1)\<close>.\<close>

definition binade :: "rat \<Rightarrow> int" where
  "binade x =
    (let (n, d) = quotient_of x; e = bitlen n - bitlen d
     in if 2 powi e \<le> x then e else e - 1)"

text \<open>
  Rounding of a rational to the nearest binary64 value, ties to even (the IEEE 754
  default, which Go's conversions and arithmetic use): 53 significant bits, exponents
  from \<open>-1022\<close> (below that the spacing stays \<open>2^-1074\<close>) to \<open>1023\<close>, infinity beyond.
\<close>

definition f64_round :: "rat \<Rightarrow> float64" where
  "f64_round x =
    (if x = 0 then Finite 0
     else
       let a = \<bar>x\<bar>;
           e = max (binade a) (- 1022);
           u = 2 powi (e - 52);
           r = of_int (round_half_even (a / u)) * u
       in if 2 powi 1024 \<le> r then (if 0 < x then PosInf else NegInf)
          else Finite (if x < 0 then - r else r))"

text \<open>The conversions \<open>float64(i)\<close> of an \<open>int\<close> or \<open>int64\<close>.\<close>

definition float64_of_int :: "int \<Rightarrow> float64" where
  "float64_of_int i = f64_round (of_int i)"

text \<open>The quotient \<open>x / y\<close> of two \<open>float64\<close> values; a division by zero does not panic.\<close>

fun f64_div :: "float64 \<Rightarrow> float64 \<Rightarrow> float64" where
  "f64_div NaN _ = NaN"
| "f64_div _ NaN = NaN"
| "f64_div (Finite a) (Finite b) =
    (if b = 0 then (if a = 0 then NaN else if 0 < a then PosInf else NegInf)
     else f64_round (a / b))"
| "f64_div (Finite a) _ = Finite 0"
| "f64_div PosInf (Finite b) = (if b < 0 then NegInf else PosInf)"
| "f64_div NegInf (Finite b) = (if b < 0 then PosInf else NegInf)"
| "f64_div _ _ = NaN"

text \<open>\<open>math.Ceil\<close>: the least integral value not below the argument, itself a binary64.\<close>

fun Ceil :: "float64 \<Rightarrow> float64" where
  "Ceil (Finite a) = Finite (of_int \<lceil>a\<rceil>)"
| "Ceil x = x"

text \<open>
  The conversion \<open>int64(x)\<close> truncates towards zero. Where the value does not fit (a NaN,
  an infinity, a magnitude out of range) the Go specification leaves the result to the
  implementation; the model takes it from the parameter \<open>indef\<close>. On amd64 it is
  \<open>-2^63\<close> for every such value.
\<close>

definition int64_of_float64 :: "(float64 \<Rightarrow> int) \<Rightarrow> float64 \<Rightarrow> int" where
  "int64_of_float64 indef x =
    (case x of
       Finite a \<Rightarrow>
         (let t = (if 0 \<le> a then \<lfloor>a\<rfloor> else \<lceil>a\<rceil>)
          in if - (2 ^ 63) \<le> t \<and> t < 2 ^ 63 then t else indef x)
     | _ \<Rightarrow> indef x)"

definition amd64_indef :: "float64 \<Rightarrow> int" where
  "amd64_indef x = - (2 ^ 63)"

subsection \<open>Page metadata\<close>

definition CalculatePagination ::
  "(float64 \<Rightarrow> int) \<Rightarrow> PaginationRequest \<Rightarrow> int \<Rightarrow> PaginationResponse" where
  "CalculatePagination indef pagination totalCount =
    (if IsDisabled pagination then
       \<lparr>PaginationResponse.Page = 1, PerPage = totalCount, MaxPage = 1, Total = totalCount,
        IsDisabled = True\<rparr>
     else
       (let maxPage =
              int64_of_float64 indef
                (Ceil (f64_div (float64_of_int totalCount)
                   (float64_of_int (PerPage pagination))));
            maxPage = (if maxPage = 0 then 1 else maxPage)
        in \<lparr>PaginationResponse.Page = Page pagination, PerPage = PerPage pagination,
            MaxPage = maxPage, Total = totalCount, IsDisabled = False\<rparr>))"

definition NewPaginatedResponse ::
  "int \<Rightarrow> string \<Rightarrow> 'a option \<Rightarrow> PaginationResponse \<Rightarrow> 'a PaginatedResponse" where
  "NewPaginatedResponse code message data pagination =
    (let status = (if code \<ge> 400 then ''error'' else ''success'')
     in \<lparr>Code = code, Status = status, Message = message, Data = data,
         Pagination = pagination\<rparr>)"

section \<open>Include validation (the filters of examples/ and of the README)\<close>

text \<open>
  Modelled from the spec: the struct \<open>BaseFilter\<close>, which every filter embeds, is declared
  outside src/. The sources read and write its fields \<open>Pagination\<close> and \<open>Includes\<close>, and
  those two are all the model gives it; a filter with further fields is an extension of
  the record.
\<close>

record BaseFilter =
  Pagination :: PaginationRequest
  Includes :: "string list"

text \<open>
  An allow-list is a Go \<open>map[string]bool\<close>; indexing it with a key it does not hold gives
  \<open>false\<close>.
\<close>

type_synonym AllowedIncludes = "string \<rightharpoonup> bool"

definition index_map :: "AllowedIncludes \<Rightarrow> string \<Rightarrow> bool" where
  "index_map m key = (case m key of None \<Rightarrow> False | Some b \<Rightarrow> b)"

text \<open>
  \<open>isValidInclude\<close> as the README gives it: \<open>regexp.MatchString\<close> with the pattern
  \<open>^[a-zA-Z0-9_.]+$\<close>; the pattern compiles, so the error it returns beside the match is
  always \<open>nil\<close>. A byte outside ASCII is never in the class.
\<close>

definition include_char :: "char \<Rightarrow> bool" where
  "include_char c =
    ((97 \<le> (of_char c :: nat) \<and> (of_char c :: nat) \<le> 122) \<or>
     (65 \<le> (of_char c :: nat) \<and> (of_char c :: nat) \<le> 90) \<or>
     (48 \<le> (of_char c :: nat) \<and> (of_char c :: nat) \<le> 57) \<or>
     c = CHR ''_'' \<or> c = CHR ''.'')"

definition isValidInclude :: "string \<Rightarrow> bool" where
  "isValidInclude include = (include \<noteq> [] \<and> list_all include_char include)"

text \<open>
  The loop of \<open>Validate\<close> as \<open>ProvinceFilter\<close>, \<open>SportFilter\<close>, \<open>EventFilter\<close>,
  \<open>AthleteFilter\<close> and the README's \<open>UserFilter\<close> write it, the same statement for
  statement: \<open>validIncludes\<close> starts out \<open>nil\<close> and every requested name the allow-list
  maps to \<open>true\<close> is appended.
\<close>

fun Validate_loop :: "AllowedIncludes \<Rightarrow> string list \<Rightarrow> string list \<Rightarrow> string list" where
  "Validate_loop allowedIncludes [] validIncludes = validIncludes"
| "Validate_loop allowedIncludes (include # rest) validIncludes =
    Validate_loop allowedIncludes rest
      (if index_map allowedIncludes include then validIncludes @ [include] else validIncludes)"

text \<open>The loop of \<open>SecureUserFilter.Validate\<close>, with the second test inside the first.\<close>

fun SecureValidate_loop ::
  "AllowedIncludes \<Rightarrow> string list \<Rightarrow> string list \<Rightarrow> string list" where
  "SecureValidate_loop allowedIncludes [] validIncludes = validIncludes"
| "SecureValidate_loop allowedIncludes (include # rest) validIncludes =
    SecureValidate_loop allowedIncludes rest
      (if index_map allowedIncludes include
       then (if isValidInclude include then validIncludes @ [include] else validIncludes)
       else validIncludes)"

definition ProvinceFilter_GetAllowedIncludes :: AllowedIncludes where
  "ProvinceFilter_GetAllowedIncludes = [''Athletes'' \<mapsto> True]"

definition ProvinceFilter_Validate :: "'a BaseFilter_scheme \<Rightarrow> 'a BaseFilter_scheme" where
  "ProvinceFilter_Validate f =
    f\<lparr>Includes := Validate_loop ProvinceFilter_GetAllowedIncludes (Includes f) []\<rparr>"

definition SportFilter_GetAllowedIncludes :: AllowedIncludes where
  "SportFilter_GetAllowedIncludes = [''Athletes'' \<mapsto> True, ''Events'' \<mapsto> True]"

definition SportFilter_Validate :: "'a BaseFilter_scheme \<Rightarrow> 'a BaseFilter_scheme" where
  "SportFilter_Validate f =
    f\<lparr>Includes := Validate_loop SportFilter_GetAllowedIncludes (Includes f) []\<rparr>"

definition EventFilter_GetAllowedIncludes :: AllowedIncludes where
  "EventFilter_GetAllowedIncludes = [''Sport'' \<mapsto> True]"

definition EventFilter_Validate :: "'a BaseFilter_scheme \<Rightarrow> 'a BaseFilter_scheme" where
  "EventFilter_Validate f =
    f\<lparr>Includes := Validate_loop EventFilter_GetAllowedIncludes (Includes f) []\<rparr>"

definition AthleteFilter_GetAllowedIncludes :: AllowedIncludes where
  "AthleteFilter_GetAllowedIncludes =
    [''Province'' \<mapsto> True, ''Sport'' \<mapsto> True, ''PlayersEvents'' \<mapsto> True]"

definition AthleteFilter_Validate :: "'a BaseFilter_scheme \<Rightarrow> 'a BaseFilter_scheme" where
  "AthleteFilter_Validate f =
    f\<lparr>Includes := Validate_loop AthleteFilter_GetAllowedIncludes (Includes f) []\<rparr>"

definition UserFilter_GetAllowedIncludes :: AllowedIncludes where
  "UserFilter_GetAllowedIncludes =
    [''Profile'' \<mapsto> True, ''Posts'' \<mapsto> True, ''Orders'' \<mapsto> True]"

definition UserFilter_Validate :: "'a BaseFilter_scheme \<Rightarrow> 'a BaseFilter_scheme" where
  "UserFilter_Validate f =
    f\<lparr>Includes := Validate_loop UserFilter_GetAllowedIncludes (Includes f) []\<rparr>"

definition SecureUserFilter_GetAllowedIncludes :: AllowedIncludes where
  "SecureUserFilter_GetAllowedIncludes =
    [''Profile'' \<mapsto> True, ''Posts'' \<mapsto> True, ''PublicData'' \<mapsto> True,
     ''SensitiveData'' \<mapsto> False, ''PrivateNotes'' \<mapsto> False, ''AdminData'' \<mapsto> False]"

definition SecureUserFilter_Validate :: "'a BaseFilter_scheme \<Rightarrow> 'a BaseFilter_scheme" where
  "SecureUserFilter_Validate f =
    f\<lparr>Includes := SecureValidate_loop SecureUserFilter_GetAllowedIncludes (Includes f) []\<rparr>"

section \<open>The sort field\<close>

text \<open>
  Modelled from the spec: \<open>isValidSortField\<close> is declared outside src/ (its test is in
  pagination_test.go). By the spec it ``accepts only strings matching
  \<open>^[a-zA-Z_][a-zA-Z0-9_.]*$\<close>'': a letter or an underscore, then any number of the
  characters of \<open>isValidInclude\<close>.
\<close>

definition sort_first_char :: "char \<Rightarrow> bool" where
  "sort_first_char c =
    ((97 \<le> (of_char c :: nat) \<and> (of_char c :: nat) \<le> 122) \<or>
     (65 \<le> (of_char c :: nat) \<and> (of_char c :: nat) \<le> 90) \<or>
     c = CHR ''_'')"

definition isValidSortField :: "string \<Rightarrow> bool" where
  "isValidSortField field =
    (case field of
       [] \<Rightarrow> False
     | c # rest \<Rightarrow> sort_first_char c \<and> list_all include_char rest)"

text \<open>
  Modelled from the spec: the sort resolution of the executor, declared outside src/.
  By the spec, ``if the request's \<open>sort\<close> field passes the validator, use
  \<open><field> <order>\<close>; otherwise fall back to the strategy's \<open>GetDefaultSort()\<close> verbatim''.
\<close>

definition SortResolution :: "PaginationRequest \<Rightarrow> string \<Rightarrow> string" where
  "SortResolution pagination defaultSort =
    (if isValidSortField (Sort pagination)
     then Sort pagination @ '' '' @ Order pagination
     else defaultSort)"

section \<open>The search clause (helpers.go)\<close>

text \<open>
  Modelled from the spec: the type \<open>DatabaseDialect\<close> and its constants are declared
  outside src/; the spec names the four dialects.
\<close>

datatype DatabaseDialect = MySQL | PostgreSQL | SQLite | SQLServer

text \<open>
  Of a \<open>*gorm.DB\<close> the model keeps the conditions added so far, in order: each is the SQL
  text given to \<open>Where\<close>, with its \<open>?\<close> placeholders, and the values bound to them. A bound
  value is an \<open>interface{}\<close>: \<open>nil\<close> or, here, a string.
\<close>

datatype arg = NilArg | StringArg string

type_synonym DB = "(string \<times> arg list) list"

definition Where :: "DB \<Rightarrow> string \<Rightarrow> arg list \<Rightarrow> DB" where
  "Where query sql args = query @ [(sql, args)]"

text \<open>\<open>strings.Join\<close>.\<close>

fun Join :: "string list \<Rightarrow> string \<Rightarrow> string" where
  "Join [] sep = ''''"
| "Join [e] sep = e"
| "Join (e # e' # elems) sep = e @ sep @ Join (e' # elems) sep"

text \<open>
  The loop \<open>for i, field := range searchFields\<close>, from index \<open>i\<close> on: it stores into the
  slices \<open>conditions\<close> and \<open>args\<close>, both made with the length of \<open>searchFields\<close>, so the
  index is always in range (a store out of range, which panics in Go, does not occur).
\<close>

fun search_loop ::
  "string \<Rightarrow> arg \<Rightarrow> nat \<Rightarrow> string list \<Rightarrow> string list \<times> arg list \<Rightarrow> string list \<times> arg list"
  where
  "search_loop operator searchPattern i [] (conditions, args) = (conditions, args)"
| "search_loop operator searchPattern i (field # rest) (conditions, args) =
    search_loop operator searchPattern (i + 1) rest
      (conditions[i := field @ '' '' @ operator @ '' ?''], args[i := searchPattern])"

text \<open>
  \<open>CreateSearchableFilter(searchFields, dialect)\<close> returns a closure; the model is the
  closure applied to its query and search term.
\<close>

definition CreateSearchableFilter ::
  "string list \<Rightarrow> DatabaseDialect \<Rightarrow> DB \<Rightarrow> string \<Rightarrow> DB" where
  "CreateSearchableFilter searchFields dialect query searchTerm =
    (if length searchFields = 0 \<or> searchTerm = '''' then query
     else
       (let searchPattern = ''%'' @ searchTerm @ ''%'';
            operator = (if dialect = PostgreSQL then ''ILIKE'' else ''LIKE'')
        in if length searchFields = 1
           then Where query (searchFields ! 0 @ '' '' @ operator @ '' ?'')
                  [StringArg searchPattern]
           else
             (let (conditions, args) =
                    search_loop operator (StringArg searchPattern) 0 searchFields
                      (replicate (length searchFields) '''',
                       replicate (length searchFields) NilArg);
                  whereClause = ''('' @ Join conditions '' OR '' @ '')''
              in Where query whereClause args)))"

section \<open>The helpers (helpers.go)\<close>

text \<open>
  A Go \<open>error\<close> is held as its message, \<open>err.Error()\<close>; \<open>None\<close> is the \<open>nil\<close> error. A \<open>nil\<close>
  slice is the empty list. The source's variables \<open>filter\<close> and \<open>total\<close> carry a prime
  here, as HOL has constants of these names.
\<close>

type_synonym error = string

text \<open>
  A filter reaches the helpers as an interface value. The model passes the filter's state
  (of any type \<open>'f\<close>) together with its methods: \<open>GetPagination\<close> and \<open>GetIncludes\<close>, and
  the two methods the helpers look for with a type assertion, \<open>BindPagination\<close> and
  \<open>Validate\<close>, each \<open>None\<close> when the filter's type does not have it. The filter is a pointer,
  so a method that writes to it returns the new state.
\<close>

record 'f Filterable =
  BindPagination_method :: "(Context \<Rightarrow> 'f \<Rightarrow> 'f) option"
  Validate_method :: "('f \<Rightarrow> 'f) option"
  GetPagination :: "'f \<Rightarrow> PaginationRequest"
  GetIncludes :: "'f \<Rightarrow> string list"

text \<open>
  \<open>NewSimpleQueryBuilder\<close> and the builder's \<open>WithSearchFields\<close> and \<open>WithFilters\<close> are
  declared outside src/: a builder is kept as the chain of calls that made it.
\<close>

datatype SimpleQueryBuilder =
    NewSimpleQueryBuilder string
  | WithSearchFields SimpleQueryBuilder "string list"
  | WithFilters SimpleQueryBuilder "DB \<Rightarrow> DB"

text \<open>
  \<open>PaginatedQuery\<close>, the executor, is declared outside src/: the helpers take it as the
  parameter \<open>PaginatedQuery\<close>, any function of the \<open>*gorm.DB\<close> handle, the builder (or
  filter), the request and the includes. Beside the rows, the total and the error of the
  source it gives the builder as it leaves it: the builder is a pointer, and
  \<open>PaginateWithCustomFilter\<close> reads its filter again after the call.
\<close>

type_synonym ('d, 'b, 't) executor =
  "'d \<Rightarrow> 'b \<Rightarrow> PaginationRequest \<Rightarrow> string list \<Rightarrow> 'b \<times> 't list \<times> int \<times> error option"

text \<open>
  Modelled from the spec: what \<open>PaginatedQuery\<close> does with the store. By the spec it runs
  a count of the filtered and searched query, then a fetch of the page with the sort,
  limit, offset and includes, and ``a store-level error at either Count or Fetch aborts
  the whole operation and is surfaced to the caller; no partial page is ever returned''.
  The store stands for the \<open>*gorm.DB\<close> handle: its two steps, each with the error or the
  result it gives for a builder (or filter), a request and a list of includes.
\<close>

record ('b, 't) Store =
  Count :: "'b \<Rightarrow> PaginationRequest \<Rightarrow> error + int"
  Fetch :: "'b \<Rightarrow> PaginationRequest \<Rightarrow> string list \<Rightarrow> error + 't list"

definition PaginatedQuery_spec :: "(('b, 't) Store, 'b, 't) executor" where
  "PaginatedQuery_spec db builder pagination includes =
    (case Count db builder pagination of
       Inl err \<Rightarrow> (builder, [], 0, Some err)
     | Inr total' \<Rightarrow>
        (case Fetch db builder pagination includes of
           Inl err \<Rightarrow> (builder, [], 0, Some err)
         | Inr data \<Rightarrow> (builder, data, total', None)))"

text \<open>
  \<open>ctx.ShouldBindQuery(filter)\<close> belongs to gin: the helpers take it as the parameter
  \<open>ShouldBindQuery\<close>, which gives the filter as the binding leaves it and the error, if any.
  The parameter \<open>indef\<close> is the one of \<open>CalculatePagination\<close>.
\<close>

definition PaginateWithCustomFilter ::
  "(float64 \<Rightarrow> int) \<Rightarrow> 'f Filterable \<Rightarrow> (Context \<Rightarrow> 'f \<Rightarrow> 'f \<times> error option) \<Rightarrow>
   ('d, 'f, 't) executor \<Rightarrow> 'd \<Rightarrow> Context \<Rightarrow> 'f \<Rightarrow>
   't list \<times> PaginationResponse \<times> error option" where
  "PaginateWithCustomFilter indef m ShouldBindQuery PaginatedQuery db ctx filter' =
    (let filter' = (case BindPagination_method m of
                     Some bind \<Rightarrow> bind ctx filter'
                   | None \<Rightarrow> filter');
         (filter', err) = ShouldBindQuery ctx filter'
     in if err \<noteq> None then ([], PaginationResponse_zero, err)
        else
          (let (filter', data, total', err) =
                 PaginatedQuery db filter' (GetPagination m filter') (GetIncludes m filter')
           in if err \<noteq> None then ([], PaginationResponse_zero, err)
              else (data, CalculatePagination indef (GetPagination m filter') total', None)))"

definition PaginatedAPIResponseWithCustomFilter ::
  "(float64 \<Rightarrow> int) \<Rightarrow> 'f Filterable \<Rightarrow> (Context \<Rightarrow> 'f \<Rightarrow> 'f \<times> error option) \<Rightarrow>
   ('d, 'f, 't) executor \<Rightarrow> 'd \<Rightarrow> Context \<Rightarrow> 'f \<Rightarrow> string \<Rightarrow> 't list PaginatedResponse" where
  "PaginatedAPIResponseWithCustomFilter indef m ShouldBindQuery PaginatedQuery db ctx filter'
      message =
    (let (data, paginationResponse, err) =
           PaginateWithCustomFilter indef m ShouldBindQuery PaginatedQuery db ctx filter'
     in case err of
          Some e \<Rightarrow>
            NewPaginatedResponse 500 (''Internal Server Error: '' @ e) None
              PaginationResponse_zero
        | None \<Rightarrow> NewPaginatedResponse 200 message (Some data) paginationResponse)"

definition PaginateModel ::
  "(float64 \<Rightarrow> int) \<Rightarrow> ('d, SimpleQueryBuilder, 't) executor \<Rightarrow> 'd \<Rightarrow> Context \<Rightarrow> string \<Rightarrow>
   string list \<Rightarrow> 't list \<times> PaginationResponse \<times> error option" where
  "PaginateModel indef PaginatedQuery db ctx tableName searchFields =
    (let pagination = BindPagination ctx;
         builder = WithSearchFields (NewSimpleQueryBuilder tableName) searchFields;
         (builder, data, total', err) = PaginatedQuery db builder pagination []
     in if err \<noteq> None then ([], PaginationResponse_zero, err)
        else (data, CalculatePagination indef pagination total', None))"

definition PaginateWithIncludes ::
  "(float64 \<Rightarrow> int) \<Rightarrow> ('d, SimpleQueryBuilder, 't) executor \<Rightarrow> 'd \<Rightarrow> Context \<Rightarrow> string \<Rightarrow>
   string list \<Rightarrow> string list \<Rightarrow> 't list \<times> PaginationResponse \<times> error option" where
  "PaginateWithIncludes indef PaginatedQuery db ctx tableName searchFields includes =
    (let pagination = BindPagination ctx;
         builder = WithSearchFields (NewSimpleQueryBuilder tableName) searchFields;
         (builder, data, total', err) = PaginatedQuery db builder pagination includes
     in if err \<noteq> None then ([], PaginationResponse_zero, err)
        else (data, CalculatePagination indef pagination total', None))"

definition PaginateWithFilter ::
  "(float64 \<Rightarrow> int) \<Rightarrow> ('d, SimpleQueryBuilder, 't) executor \<Rightarrow> 'd \<Rightarrow> Context \<Rightarrow> string \<Rightarrow>
   string list \<Rightarrow> (DB \<Rightarrow> DB) \<Rightarrow> 't list \<times> PaginationResponse \<times> error option" where
  "PaginateWithFilter indef PaginatedQuery db ctx tableName searchFields filterFunc =
    (let pagination = BindPagination ctx;
         builder =
           WithFilters (WithSearchFields (NewSimpleQueryBuilder tableName) searchFields)
             filterFunc;
         (builder, data, total', err) = PaginatedQuery db builder pagination []
     in if err \<noteq> None then ([], PaginationResponse_zero, err)
        else (data, CalculatePagination indef pagination total', None))"

definition QuickPaginate ::
  "(float64 \<Rightarrow> int) \<Rightarrow> ('d, SimpleQueryBuilder, 't) executor \<Rightarrow> 'd \<Rightarrow> Context \<Rightarrow> string \<Rightarrow>
   't list \<times> PaginationResponse \<times> error option" where
  "QuickPaginate indef PaginatedQuery db ctx tableName =
    (let pagination = BindPagination ctx;
         builder = NewSimpleQueryBuilder tableName;
         (builder, data, total', err) = PaginatedQuery db builder pagination []
     in if err \<noteq> None then ([], PaginationResponse_zero, err)
        else (data, CalculatePagination indef pagination total', None))"

definition PaginatedAPIResponse ::
  "(float64 \<Rightarrow> int) \<Rightarrow> ('d, SimpleQueryBuilder, 't) executor \<Rightarrow> 'd \<Rightarrow> Context \<Rightarrow> string \<Rightarrow>
   string list \<Rightarrow> string \<Rightarrow> 't list PaginatedResponse" where
  "PaginatedAPIResponse indef PaginatedQuery db ctx tableName searchFields message =
    (let (data, paginationResponse, err) =
           PaginateModel indef PaginatedQuery db ctx tableName searchFields
     in case err of
          Some e \<Rightarrow>
            NewPaginatedResponse 500 (''Internal Server Error: '' @ e) None
              PaginationResponse_zero
        | None \<Rightarrow> NewPaginatedResponse 200 message (Some data) paginationResponse)"

definition PaginatedAPIResponseWithIncludes ::
  "(float64 \<Rightarrow> int) \<Rightarrow> ('d, SimpleQueryBuilder, 't) executor \<Rightarrow> 'd \<Rightarrow> Context \<Rightarrow> string \<Rightarrow>
   string list \<Rightarrow> string list \<Rightarrow> string \<Rightarrow> 't list PaginatedResponse" where
  "PaginatedAPIResponseWithIncludes indef PaginatedQuery db ctx tableName searchFields includes
      message =
    (let (data, paginationResponse, err) =
           PaginateWithIncludes indef PaginatedQuery db ctx tableName searchFields includes
     in case err of
          Some e \<Rightarrow>
            NewPaginatedResponse 500 (''Internal Server Error: '' @ e) None
              PaginationResponse_zero
        | None \<Rightarrow> NewPaginatedResponse 200 message (Some data) paginationResponse)"

text \<open>
  The query layer's \<open>queryFunc\<close> is the caller's: it is given the filter and returns, beside
  its three results, the filter as it leaves it.
\<close>

definition PaginatedQueryWithQueryLayer ::
  "'f Filterable \<Rightarrow> 'f \<Rightarrow> ('f \<Rightarrow> 'f \<times> 't list \<times> int \<times> error option) \<Rightarrow>
   'f \<times> 't list \<times> int \<times> error option" where
  "PaginatedQueryWithQueryLayer m filter' queryFunc =
    (let filter' = (case Validate_method m of
                     Some validate \<Rightarrow> validate filter'
                   | None \<Rightarrow> filter')
     in queryFunc filter')"

definition PaginatedAPIResponseWithQueryLayer ::
  "(float64 \<Rightarrow> int) \<Rightarrow> 'f Filterable \<Rightarrow> (Context \<Rightarrow> 'f \<Rightarrow> 'f \<times> error option) \<Rightarrow> Context \<Rightarrow>
   'f \<Rightarrow> string \<Rightarrow> ('f \<Rightarrow> 'f \<times> 't list \<times> int \<times> error option) \<Rightarrow> 't list PaginatedResponse"
  where
  "PaginatedAPIResponseWithQueryLayer indef m ShouldBindQuery ctx filter' message queryFunc =
    (let filter' = (case BindPagination_method m of
                     Some bind \<Rightarrow> bind ctx filter'
                   | None \<Rightarrow> filter');
         (filter', err) = ShouldBindQuery ctx filter'
     in case err of
          Some e \<Rightarrow>
            NewPaginatedResponse 400 (''Invalid query parameters: '' @ e) None
              PaginationResponse_zero
        | None \<Rightarrow>
           (let (filter', data, total', err) = PaginatedQueryWithQueryLayer m filter' queryFunc
            in case err of
                 Some e \<Rightarrow>
                   NewPaginatedResponse 500 (''Internal Server Error: '' @ e) None
                     PaginationResponse_zero
               | None \<Rightarrow>
                   NewPaginatedResponse 200 message (Some data)
                     (CalculatePagination indef (GetPagination m filter') total')))"

definition BindAndValidateFilter ::
  "'f Filterable \<Rightarrow> (Context \<Rightarrow> 'f \<Rightarrow> 'f \<times> error option) \<Rightarrow> Context \<Rightarrow> 'f \<Rightarrow>
   'f \<times> error option" where
  "BindAndValidateFilter m ShouldBindQuery ctx filter' =
    (let filter' = (case BindPagination_method m of
                     Some bind \<Rightarrow> bind ctx filter'
                   | None \<Rightarrow> filter');
         (filter', err) = ShouldBindQuery ctx filter'
     in if err \<noteq> None then (filter', err)
        else
          (let filter' = (case Validate_method m of
                           Some validate \<Rightarrow> validate filter'
                         | None \<Rightarrow> filter')
           in (filter', None)))"

section \<open>Lemmas: binary64 rounding\<close>

lemma pow2_add: "(2::rat) powi (a + b) = 2 powi a * 2 powi b"
  by (simp add: power_int_add)

lemma pow2_diff: "(2::rat) powi (a - b) = 2 powi a / 2 powi b"
  by (simp add: power_int_diff)

lemma pow2_mono: "a \<le> b \<Longrightarrow> (2::rat) powi a \<le> 2 powi b"
  by (rule power_int_increasing) simp_all

lemma pow2_strict_mono: "a < b \<Longrightarrow> (2::rat) powi a < 2 powi b"
  by (rule power_int_strict_increasing) simp_all

lemma pow2_less_cancel: "(2::rat) powi a < 2 powi b \<Longrightarrow> a < b"
  using pow2_mono [of b a] by (cases "a < b") auto

lemma pow2_le_cancel: "(2::rat) powi a \<le> 2 powi b \<Longrightarrow> a \<le> b"
  using pow2_strict_mono [of b a] by (cases "a \<le> b") auto

lemma pow2_nat: "0 \<le> e \<Longrightarrow> (2::rat) powi e = of_int (2 ^ nat e)"
  by (simp add: power_int_nonneg_exp)

text \<open>The exponent \<open>binade x\<close> brackets a positive \<open>x\<close> between two powers of two.\<close>

lemma of_int_bitlen_bounds:
  assumes "0 < n"
  shows "(2::rat) powi (bitlen n - 1) \<le> of_int n" and "(of_int n :: rat) < 2 powi (bitlen n)"
proof -
  from assms have b: "1 \<le> bitlen n"
    by (simp add: bitlen_alt_def)
  from bitlen_bounds [OF assms]
  have lo: "2 ^ nat (bitlen n - 1) \<le> n" and hi: "n < 2 ^ nat (bitlen n)"
    by simp_all
  from lo have "(of_int (2 ^ nat (bitlen n - 1)) :: rat) \<le> of_int n"
    by (simp only: of_int_le_iff)
  with b show "(2::rat) powi (bitlen n - 1) \<le> of_int n"
    by (simp add: pow2_nat)
  from hi have "(of_int n :: rat) < of_int (2 ^ nat (bitlen n))"
    by (simp only: of_int_less_iff)
  with b show "(of_int n :: rat) < 2 powi (bitlen n)"
    by (simp add: pow2_nat)
qed

lemma binade_bounds:
  assumes "0 < x"
  shows "2 powi (binade x) \<le> x" and "x < 2 powi (binade x + 1)"
proof -
  obtain n d where q: "quotient_of x = (n, d)"
    by (cases "quotient_of x")
  then have d: "0 < d" and x: "x = of_int n / of_int d"
    by (simp_all add: quotient_of_denom_pos quotient_of_div)
  from assms d x have n: "0 < n"
    by (simp add: zero_less_divide_iff)
  let ?e = "bitlen n - bitlen d"
  have dq: "(0::rat) < of_int d" using d by simp
  have "x < 2 powi (bitlen n) / of_int d"
    unfolding x using of_int_bitlen_bounds(2) [OF n] dq by (simp add: divide_strict_right_mono)
  also have "\<dots> \<le> 2 powi (bitlen n) / 2 powi (bitlen d - 1)"
    using of_int_bitlen_bounds(1) [OF d] by (simp add: frac_le)
  also have "\<dots> = 2 powi (?e + 1)"
    by (simp add: pow2_diff [symmetric] algebra_simps)
  finally have hi: "x < 2 powi (?e + 1)" .
  have "2 powi (?e - 1) = (2::rat) powi (bitlen n - 1) / 2 powi (bitlen d)"
    by (simp add: pow2_diff [symmetric] algebra_simps)
  also have "\<dots> \<le> of_int n / 2 powi (bitlen d)"
    using of_int_bitlen_bounds(1) [OF n] by (simp add: divide_right_mono)
  also have "\<dots> \<le> x"
    unfolding x using of_int_bitlen_bounds(2) [OF d] n dq by (simp add: frac_le)
  finally have lo: "2 powi (?e - 1) \<le> x" .
  show "2 powi (binade x) \<le> x"
    using lo by (simp add: binade_def q Let_def)
  show "x < 2 powi (binade x + 1)"
    using hi by (auto simp add: binade_def q Let_def not_le)
qed

lemma binade_unique:
  assumes "2 powi e \<le> x" and "x < 2 powi (e + 1)"
  shows "binade x = e"
proof -
  have pos: "0 < x" using assms(1) by (rule less_le_trans [rotated]) simp
  from binade_bounds [OF pos] assms
  have "(2::rat) powi e < 2 powi (binade x + 1)" and "(2::rat) powi (binade x) < 2 powi (e + 1)"
    by simp_all
  then have "e < binade x + 1" and "binade x < e + 1"
    by (simp_all only: pow2_less_cancel)
  then show ?thesis by simp
qed

text \<open>Rounding to the nearest integer stays between the floor and the ceiling.\<close>

lemma rhe_bounds: "\<lfloor>y\<rfloor> \<le> round_half_even y" "round_half_even y \<le> \<lceil>y\<rceil>"
proof -
  show "\<lfloor>y\<rfloor> \<le> round_half_even y"
    by (simp add: round_half_even_def Let_def)
  have "\<lfloor>y\<rfloor> + 1 \<le> \<lceil>y\<rceil>" if "0 < y - of_int \<lfloor>y\<rfloor>"
    using that by (simp add: ceiling_altdef)
  then show "round_half_even y \<le> \<lceil>y\<rceil>"
    by (auto simp add: round_half_even_def Let_def ceiling_altdef)
qed

lemma rhe_le:
  assumes "y \<le> of_int K"
  shows "round_half_even y \<le> K"
proof -
  from assms have "\<lceil>y\<rceil> \<le> K"
    by (simp add: ceiling_le)
  with rhe_bounds(2) [of y] show ?thesis
    by linarith
qed

lemma rhe_ge:
  assumes "of_int K \<le> y"
  shows "K \<le> round_half_even y"
proof -
  from assms have "K \<le> \<lfloor>y\<rfloor>"
    by (simp add: le_floor_iff)
  with rhe_bounds(1) [of y] show ?thesis
    by linarith
qed

lemma rhe_of_int: "round_half_even (of_int k) = k"
  by (simp add: round_half_even_def)

lemma rhe_above_half:
  assumes "of_int K + 1 / 2 < y"
  shows "K + 1 \<le> round_half_even y"
proof (cases "K + 1 \<le> \<lfloor>y\<rfloor>")
  case True
  with rhe_bounds(1) [of y] show ?thesis by simp
next
  case False
  moreover from assms have "K \<le> \<lfloor>y\<rfloor>"
    by (simp add: le_floor_iff)
  ultimately have f: "\<lfloor>y\<rfloor> = K" by simp
  with assms have "1 / 2 < y - of_int \<lfloor>y\<rfloor>" by simp
  then show ?thesis
    by (simp add: round_half_even_def Let_def f)
qed

text \<open>
  A positive rational in the normal range is rounded on the grid of its binade: the
  result stays in the closed binade, and a value on the grid is not changed.
\<close>

lemma f64_round_pos:
  assumes "0 < x" and "- 1022 \<le> binade x"
    and "of_int (round_half_even (x / 2 powi (binade x - 52))) * 2 powi (binade x - 52)
           < (2::rat) powi 1024"
  shows "f64_round x =
    Finite (of_int (round_half_even (x / 2 powi (binade x - 52))) * 2 powi (binade x - 52))"
  using assms by (simp add: f64_round_def Let_def max_def not_le del: power_int_numeral)

lemma f64_round_binade_value:
  assumes x: "0 < x" and lo: "- 1022 \<le> binade x" and hi: "binade x \<le> 1022"
  defines "r \<equiv> of_int (round_half_even (x / 2 powi (binade x - 52))) * 2 powi (binade x - 52)"
  shows "f64_round x = Finite r" and "2 powi (binade x) \<le> r" and "r \<le> 2 powi (binade x + 1)"
proof -
  let ?e = "binade x"
  let ?u = "(2::rat) powi (?e - 52)"
  let ?M = "round_half_even (x / ?u)"
  have u: "0 < ?u" by simp
  have "?e = 52 + (?e - 52)" "?e + 1 = 53 + (?e - 52)"
    by simp_all
  then have "2 powi ?e = 2 powi 52 * ?u" "2 powi (?e + 1) = 2 powi 53 * ?u"
    by (metis pow2_add)+
  then have e_u: "2 powi ?e = 2 ^ 52 * ?u" "2 powi (?e + 1) = 2 ^ 53 * ?u"
    by simp_all
  from binade_bounds [OF x] have "2 ^ 52 * ?u \<le> x" "x < 2 ^ 53 * ?u"
    by (simp_all only: e_u)
  with u have "of_int (2 ^ 52) \<le> x / ?u" "x / ?u \<le> of_int (2 ^ 53)"
    by (simp_all add: pos_le_divide_eq pos_divide_le_eq)
  then have "2 ^ 52 \<le> ?M" "?M \<le> 2 ^ 53"
    by (simp_all only: rhe_ge rhe_le)
  then have "(of_int (2 ^ 52) :: rat) \<le> of_int ?M" "(of_int ?M :: rat) \<le> of_int (2 ^ 53)"
    by (simp_all only: of_int_le_iff)
  with u have r: "2 powi ?e \<le> of_int ?M * ?u" "of_int ?M * ?u \<le> 2 powi (?e + 1)"
    by (simp_all add: e_u)
  then show "2 powi (binade x) \<le> r" and "r \<le> 2 powi (binade x + 1)"
    by (simp_all only: r_def)
  have "(2::rat) powi (?e + 1) < 2 powi 1024"
    using hi by (intro pow2_strict_mono) simp
  with r(2) have "of_int ?M * ?u < 2 powi 1024"
    by (rule le_less_trans)
  from f64_round_pos [OF x lo this] show "f64_round x = Finite r"
    by (simp only: r_def)
qed

lemma f64_round_binade:
  assumes "0 < x" and "- 1022 \<le> binade x" and "binade x \<le> 1022"
  shows "\<exists>r. f64_round x = Finite r \<and> 2 powi (binade x) \<le> r \<and> r \<le> 2 powi (binade x + 1)"
  using f64_round_binade_value [OF assms] by blast

lemma f64_round_in_binade:
  assumes "2 powi e \<le> x" and "x < 2 powi (e + 1)" and "- 1022 \<le> e" and "e \<le> 1022"
  shows "f64_round x = Finite (of_int (round_half_even (x / 2 powi (e - 52))) * 2 powi (e - 52))"
proof -
  have pos: "0 < x" using assms(1) by (rule less_le_trans [rotated]) simp
  have e: "binade x = e" using assms(1,2) by (rule binade_unique)
  from f64_round_binade_value(1) [OF pos] assms(3,4) show ?thesis
    by (simp only: e)
qed

lemma f64_round_exact:
  assumes x: "0 < x" and lo: "- 1022 \<le> binade x" and hi: "binade x \<le> 1022"
    and grid: "x / 2 powi (binade x - 52) = of_int K"
  shows "f64_round x = Finite x"
proof -
  let ?u = "(2::rat) powi (binade x - 52)"
  have u: "?u \<noteq> 0" by simp
  from grid u have xK: "x = of_int K * ?u"
    by (simp add: field_simps)
  have "x < 2 powi (binade x + 1)"
    using binade_bounds(2) [OF x] .
  also have "\<dots> < 2 powi 1024"
    using hi by (intro pow2_strict_mono) simp
  finally have "of_int (round_half_even (x / ?u)) * ?u < 2 powi 1024"
    by (simp only: grid rhe_of_int xK [symmetric])
  from f64_round_pos [OF x lo this] show ?thesis
    by (simp only: grid rhe_of_int xK [symmetric])
qed

text \<open>Integers up to \<open>2^53\<close> are binary64 values; a larger \<open>int\<close> is rounded, to at least \<open>2^53\<close>.\<close>

lemma binade_of_int_nonneg:
  assumes "1 \<le> x"
  shows "0 \<le> binade x"
proof -
  from assms have pos: "0 < x" by simp
  have "(2::rat) powi 0 \<le> x" using assms by simp
  also have "x < 2 powi (binade x + 1)" by (rule binade_bounds(2) [OF pos])
  finally have "0 < binade x + 1" by (rule pow2_less_cancel)
  then show ?thesis by simp
qed

lemma binade_upper:
  assumes "0 < x" and "x \<le> 2 powi b"
  shows "binade x \<le> b"
proof -
  have "2 powi (binade x) \<le> x" by (rule binade_bounds(1) [OF assms(1)])
  with assms(2) have "(2::rat) powi (binade x) \<le> 2 powi b" by simp
  then show ?thesis by (rule pow2_le_cancel)
qed

lemma binade_upper_strict:
  assumes "0 < x" and "x < 2 powi b"
  shows "binade x < b"
proof -
  have "2 powi (binade x) \<le> x" by (rule binade_bounds(1) [OF assms(1)])
  with assms(2) have "(2::rat) powi (binade x) < 2 powi b" by simp
  then show ?thesis by (rule pow2_less_cancel)
qed

lemma binade_lower:
  assumes "0 < x" and "2 powi b \<le> x"
  shows "b \<le> binade x"
proof -
  have "x < 2 powi (binade x + 1)" by (rule binade_bounds(2) [OF assms(1)])
  with assms(2) have "(2::rat) powi b < 2 powi (binade x + 1)" by simp
  then have "b < binade x + 1" by (rule pow2_less_cancel)
  then show ?thesis by simp
qed

lemma pow2_inverse_nat:
  assumes "e \<le> 52"
  shows "(2::rat) powi (e - 52) = 1 / of_int (2 ^ nat (52 - e))"
proof -
  have "(2::rat) powi (e - 52) = 1 / 2 powi (52 - e)"
    using power_int_minus_divide [of "2::rat" "52 - e"] by simp
  with assms show ?thesis
    by (simp add: pow2_nat)
qed

lemma f64_round_int_exact:
  assumes "1 \<le> k" and "k \<le> 2 ^ 53"
  shows "f64_round (of_int k) = Finite (of_int k)"
proof -
  let ?x = "of_int k :: rat"
  let ?e = "binade ?x"
  from assms have pos: "0 < ?x" and one: "1 \<le> ?x" by simp_all
  have lo: "0 \<le> ?e" by (rule binade_of_int_nonneg [OF one])
  have "?x \<le> of_int (2 ^ 53)" using assms(2) by (simp only: of_int_le_iff)
  then have x53: "?x \<le> 2 powi 53" by simp
  then have hi: "?e \<le> 53" by (rule binade_upper [OF pos])
  show ?thesis
  proof (cases "?e \<le> 52")
    case True
    then have "?x / 2 powi (?e - 52) = of_int (k * 2 ^ nat (52 - ?e))"
      by (simp add: pow2_inverse_nat)
    moreover have "- 1022 \<le> ?e" "?e \<le> 1022"
      using lo True by simp_all
    ultimately show ?thesis
      using f64_round_exact [OF pos, of "k * 2 ^ nat (52 - ?e)"] by blast
  next
    case False
    with hi have e: "?e = 53" by simp
    with binade_bounds(1) [OF pos] x53 have xx: "?x = 2 ^ 53" by simp
    have u: "(2::rat) powi (?e - 52) = 2" by (simp add: e)
    have "?x / 2 powi (?e - 52) = of_int (2 ^ 52)"
      by (simp only: u) (simp add: xx)
    moreover have "- 1022 \<le> ?e" "?e \<le> 1022"
      using e by simp_all
    ultimately show ?thesis
      using f64_round_exact [OF pos, of "2 ^ 52"] by blast
  qed
qed

lemma float64_of_int_exact:
  assumes "0 \<le> t" and "t \<le> 2 ^ 53"
  shows "float64_of_int t = Finite (of_int t)"
proof (cases "t = 0")
  case True
  then show ?thesis by (simp add: float64_of_int_def f64_round_def)
next
  case False
  with assms have "1 \<le> t" by simp
  then show ?thesis
    unfolding float64_of_int_def using assms(2) by (rule f64_round_int_exact)
qed

lemma float64_of_int_large:
  assumes "2 ^ 53 \<le> p" and "p < 2 ^ 63"
  shows "\<exists>q. float64_of_int p = Finite q \<and> 2 ^ 53 \<le> q \<and> q \<le> 2 ^ 63"
proof -
  let ?x = "of_int p :: rat"
  from assms have pos: "0 < ?x" by simp
  have "(of_int (2 ^ 53) :: rat) \<le> ?x" using assms(1) by (simp only: of_int_le_iff)
  then have "2 powi 53 \<le> ?x" by simp
  then have lo: "53 \<le> binade ?x" by (rule binade_lower [OF pos])
  have "?x < of_int (2 ^ 63)" using assms(2) by (simp only: of_int_less_iff)
  then have "?x < 2 powi 63" by simp
  then have hi: "binade ?x < 63" by (rule binade_upper_strict [OF pos])
  from lo hi f64_round_binade [OF pos]
  obtain r where r: "f64_round ?x = Finite r" "2 powi (binade ?x) \<le> r"
      "r \<le> 2 powi (binade ?x + 1)"
    by auto
  have "(2::rat) powi 53 \<le> 2 powi (binade ?x)" using lo by (rule pow2_mono)
  with r(2) have "2 ^ 53 \<le> r" by simp
  moreover have "(2::rat) powi (binade ?x + 1) \<le> 2 powi 63"
    using hi by (intro pow2_mono) simp
  with r(3) have "r \<le> 2 ^ 63" by simp
  ultimately show ?thesis
    using r(1) by (simp add: float64_of_int_def)
qed

text \<open>
  The quotient of a total by a larger divisor rounds into \<open>(0, 1]\<close>. A quotient strictly
  between the integers \<open>k\<close> and \<open>k + 1\<close> rounds into \<open>(k, k + 1]\<close> when the total is at most
  \<open>2^53\<close>: the quotient is at least \<open>1 / p\<close> above \<open>k\<close>, which is more than half the spacing
  of the binary64 values there, because \<open>k * p < 2^53\<close>.
\<close>

lemma f64_round_unit_interval:
  assumes t: "1 \<le> t" and tq: "t \<le> q" and q: "q \<le> 2 ^ 63"
  shows "\<exists>r. f64_round (t / q) = Finite r \<and> 0 < r \<and> r \<le> 1"
proof -
  let ?x = "t / q :: rat"
  from t tq have qpos: "0 < q" by simp
  with t have pos: "0 < ?x" by simp
  from tq qpos have le1: "?x \<le> 1" by simp
  have "1 / 2 ^ 63 \<le> 1 / q"
    using q qpos by (simp add: frac_le)
  also have "1 / q \<le> ?x"
    using t qpos by (simp add: divide_right_mono)
  finally have "2 powi (- 63) \<le> ?x"
    by (simp add: power_int_minus_divide)
  then have lo: "- 63 \<le> binade ?x" by (rule binade_lower [OF pos])
  from le1 have "?x \<le> 2 powi 0" by simp
  then have hi: "binade ?x \<le> 0" by (rule binade_upper [OF pos])
  from lo hi f64_round_binade [OF pos]
  obtain r where r: "f64_round ?x = Finite r" "2 powi (binade ?x) \<le> r"
      "r \<le> 2 powi (binade ?x + 1)"
    by auto
  have rpos: "0 < r"
    using r(2) by (rule less_le_trans [rotated]) simp
  show ?thesis
  proof (cases "binade ?x = 0")
    case True
    with binade_bounds(1) [OF pos] le1 have "?x = 1" by simp
    then have "f64_round ?x = Finite 1"
      using f64_round_int_exact [of 1] by simp
    then show ?thesis by simp
  next
    case False
    with hi have "binade ?x + 1 \<le> 0" by simp
    then have "(2::rat) powi (binade ?x + 1) \<le> 2 powi 0" by (rule pow2_mono)
    with r(3) have "r \<le> 1" by simp
    with r(1) rpos show ?thesis by simp
  qed
qed

lemma f64_round_between:
  fixes k p m :: int
  assumes k: "1 \<le> k" and m: "0 < m" "m < p" and t: "k * p + m \<le> 2 ^ 53"
  shows "\<exists>r. f64_round (of_int (k * p + m) / of_int p) = Finite r \<and>
           of_int k < r \<and> r \<le> of_int k + 1"
proof -
  define x :: rat where "x = of_int (k * p + m) / of_int p"
  define e where "e = binade x"
  define N :: int where "N = 2 ^ nat (52 - e)"
  define M where "M = round_half_even (x * of_int N)"
  define r :: rat where "r = of_int M / of_int N"
  from m have p: "0 < p" by simp
  then have pq: "(0::rat) < of_int p" by simp
  have x: "x = of_int k + of_int m / of_int p"
    using p by (simp add: x_def field_simps)
  from m pq have "0 < (of_int m / of_int p :: rat)" "(of_int m / of_int p :: rat) < 1"
    by simp_all
  with x have xk: "of_int k < x" "x < of_int k + 1" by simp_all
  from k xk(1) have one: "1 \<le> x" by simp
  then have pos: "0 < x" by simp
  have e0: "0 \<le> e" unfolding e_def by (rule binade_of_int_nonneg [OF one])
  \<comment> \<open>the binade's lower end is an integer not above \<open>k\<close>\<close>
  have "(2::rat) powi e \<le> x" unfolding e_def by (rule binade_bounds(1) [OF pos])
  with xk(2) have "(of_int (2 ^ nat e) :: rat) < of_int (k + 1)"
    using e0 by (simp add: pow2_nat)
  then have "2 ^ nat e < k + 1" by (simp only: of_int_less_iff)
  then have ek: "2 ^ nat e \<le> k" by simp
  \<comment> \<open>so the exponent is at most 52\<close>
  from p have "k * 1 \<le> k * p" using k by (intro mult_left_mono) simp_all
  with t m have k53: "k < 2 ^ 53" by simp
  with ek have lt: "(2::int) ^ nat e < 2 ^ 53" by simp
  have "nat e < 53" by (rule power_less_imp_less_exp [OF _ lt]) simp
  with e0 have e52: "e \<le> 52" by simp
  have N: "0 < N" by (simp add: N_def)
  then have Nq: "(0::rat) < of_int N" by simp
  have u: "(2::rat) powi (e - 52) = 1 / of_int N"
    unfolding N_def by (rule pow2_inverse_nat [OF e52])
  have y: "x / 2 powi (e - 52) = x * of_int N"
    by (simp only: u) simp
  \<comment> \<open>above: the scaled quotient is below the integer \<open>(k + 1) * N\<close>\<close>
  have "x * of_int N \<le> (of_int k + 1) * of_int N"
    using xk(2) Nq by (intro mult_right_mono) simp_all
  then have "x * of_int N \<le> of_int ((k + 1) * N)" by simp
  then have Mhi: "M \<le> (k + 1) * N" unfolding M_def by (rule rhe_le)
  \<comment> \<open>below: it is more than one half above the integer \<open>k * N\<close>\<close>
  have "2 ^ nat e * N * 2 = (2::int) ^ (nat e + nat (52 - e) + 1)"
    by (simp add: N_def power_add)
  also have "nat e + nat (52 - e) + 1 = 53"
    using e0 e52 by simp
  finally have split: "2 ^ nat e * (N * 2) = (2::int) ^ 53"
    by (simp add: mult.assoc)
  have "2 ^ nat e * p \<le> k * p"
    using ek p by (intro mult_right_mono) simp_all
  also have "k * p < 2 ^ 53" using t m by simp
  finally have "2 ^ nat e * p < 2 ^ nat e * (N * 2)"
    by (simp only: split)
  then have "p < N * 2" by simp
  also have "N * 2 \<le> N * 2 * m"
    using m N by simp
  finally have "p < 2 * m * N" by (simp add: mult_ac)
  then have "(of_int p :: rat) < of_int (2 * m * N)" by (simp only: of_int_less_iff)
  then have "1 / 2 < (of_int m / of_int p :: rat) * of_int N"
    using pq by (simp add: field_simps)
  then have "of_int (k * N) + 1 / 2 < x * of_int N"
    by (simp add: x algebra_simps)
  then have Mlo: "k * N + 1 \<le> M" unfolding M_def by (rule rhe_above_half)
  \<comment> \<open>the rounded value\<close>
  have r: "of_int M * 2 powi (e - 52) = r" by (simp only: u r_def) simp
  from Mhi have "(of_int M :: rat) \<le> of_int ((k + 1) * N)" by (simp only: of_int_le_iff)
  then have rhi: "r \<le> of_int k + 1"
    using Nq by (simp add: r_def field_simps)
  from Mlo have "(of_int (k * N + 1) :: rat) \<le> of_int M" by (simp only: of_int_le_iff)
  then have rlo: "of_int k < r"
    using Nq by (simp add: r_def field_simps)
  from k53 have "k + 1 \<le> 2 ^ 53" by simp
  then have "(of_int (k + 1) :: rat) \<le> of_int (2 ^ 53)" by (simp only: of_int_le_iff)
  then have "of_int k + 1 \<le> (2 ^ 53 :: rat)" by simp
  also have "\<dots> < 2 powi 1024" by simp
  finally have "r < 2 powi 1024" using rhi by simp
  then have "of_int (round_half_even (x / 2 powi (binade x - 52))) * 2 powi (binade x - 52)
      < (2::rat) powi 1024"
    by (simp only: y r M_def [symmetric] e_def [symmetric])
  moreover have "- 1022 \<le> binade x" using e0 by (simp add: e_def)
  ultimately have "f64_round x =
      Finite (of_int (round_half_even (x / 2 powi (binade x - 52))) * 2 powi (binade x - 52))"
    using f64_round_pos [OF pos] by blast
  then have "f64_round x = Finite r"
    by (simp only: y r M_def [symmetric] e_def [symmetric])
  with rlo rhi show ?thesis unfolding x_def by blast
qed

text \<open>Hence the ceiling of the binary64 quotient is the ceiling of the exact quotient.\<close>

lemma float64_of_int_divisor:
  assumes "1 \<le> p" and "p < 2 ^ 63"
  shows "\<exists>q. float64_of_int p = Finite q \<and> 1 \<le> q \<and> q \<le> 2 ^ 63 \<and>
           (if p \<le> 2 ^ 53 then q = of_int p else 2 ^ 53 \<le> q)"
proof (cases "p \<le> 2 ^ 53")
  case True
  with assms(1) have "float64_of_int p = Finite (of_int p)"
    by (intro float64_of_int_exact) simp_all
  moreover have "(1::rat) \<le> of_int p" using assms(1) by simp
  moreover from True have "(of_int p :: rat) \<le> of_int (2 ^ 53)" by (simp only: of_int_le_iff)
  then have "(of_int p :: rat) \<le> 2 ^ 63" by simp
  ultimately show ?thesis using True by simp
next
  case False
  then have "2 ^ 53 \<le> p" by simp
  from float64_of_int_large [OF this assms(2)] False show ?thesis
    by auto
qed

lemma ceiling_between:
  fixes r :: rat
  assumes "of_int k < r" and "r \<le> of_int k + 1"
  shows "\<lceil>r\<rceil> = k + 1"
  using assms by (intro ceiling_unique) simp_all

lemma f64_div_ceiling:
  assumes t: "0 \<le> t" "t \<le> 2 ^ 53" and p: "1 \<le> p" "p < 2 ^ 63"
  shows "\<exists>r. f64_div (float64_of_int t) (float64_of_int p) = Finite r \<and>
           \<lceil>r\<rceil> = \<lceil>of_int t / of_int p :: rat\<rceil>"
proof -
  have ft: "float64_of_int t = Finite (of_int t)"
    using t by (rule float64_of_int_exact)
  from float64_of_int_divisor [OF p]
  obtain q where q: "float64_of_int p = Finite q" "1 \<le> q" "q \<le> 2 ^ 63"
      "if p \<le> 2 ^ 53 then q = of_int p else 2 ^ 53 \<le> q"
    by blast
  from q(2) have q0: "q \<noteq> 0" by simp
  have pq: "(0::rat) < of_int p" using p(1) by simp
  consider "t = 0" | "1 \<le> t" "t < p" | "1 \<le> t" "p \<le> t" "t mod p = 0"
    | "1 \<le> t" "p \<le> t" "t mod p \<noteq> 0"
    using t(1) by linarith
  then show ?thesis
  proof cases
    case 1
    show ?thesis
      unfolding ft q(1) using 1 q0 by (simp add: f64_round_def)
  next
    case 2
    have tq: "(of_int t :: rat) \<le> q"
    proof (cases "p \<le> 2 ^ 53")
      case True
      with q(4) 2(2) show ?thesis by simp
    next
      case False
      from t(2) have "(of_int t :: rat) \<le> of_int (2 ^ 53)" by (simp only: of_int_le_iff)
      with False q(4) show ?thesis by simp
    qed
    have "(1::rat) \<le> of_int t" using 2(1) by simp
    from f64_round_unit_interval [OF this tq q(3)]
    obtain r where r: "f64_round (of_int t / q) = Finite r" "0 < r" "r \<le> 1"
      by blast
    from r(2,3) have "\<lceil>r\<rceil> = 0 + 1"
      by (intro ceiling_between) simp_all
    moreover have "\<lceil>of_int t / of_int p :: rat\<rceil> = 0 + 1"
      using 2 pq by (intro ceiling_between) simp_all
    ultimately show ?thesis
      by (simp add: ft q(1) q0 r(1))
  next
    case 3
    then have pt: "p \<le> 2 ^ 53" using t(2) by simp
    with q(4) have qp: "q = of_int p" by simp
    from 3(3) have tk: "t = (t div p) * p" by (simp add: mod_eq_0_iff_dvd)
    have "0 < t div p"
      using 3(2) p(1) by (simp add: pos_imp_zdiv_pos_iff)
    then have k1: "1 \<le> t div p" by simp
    have "t div p \<le> t"
      using 3(1) by (intro int_div_le_self) simp
    with t(2) have k53: "t div p \<le> 2 ^ 53" by simp
    have "(of_int t :: rat) = of_int (t div p) * of_int p"
      using tk by (metis of_int_mult)
    then have x: "(of_int t / of_int p :: rat) = of_int (t div p)"
      using pq by simp
    show ?thesis
      by (simp add: ft q(1) qp x f64_round_int_exact [OF k1 k53] del: of_int_le_iff)
        (use p(1) in simp)
  next
    case 4
    then have pt: "p \<le> 2 ^ 53" using t(2) by simp
    with q(4) have qp: "q = of_int p" by simp
    let ?k = "t div p" and ?m = "t mod p"
    have tk: "t = ?k * p + ?m" by simp
    have "0 < ?k"
      using 4(2) p(1) by (simp add: pos_imp_zdiv_pos_iff)
    then have k1: "1 \<le> ?k" by simp
    from p(1) have "0 \<le> ?m" "?m < p"
      by simp_all
    with 4(3) have m: "0 < ?m" "?m < p"
      by simp_all
    have "?k * p + ?m \<le> 2 ^ 53" using t(2) by simp
    from f64_round_between [OF k1 m this]
    obtain r where r: "f64_round (of_int t / of_int p) = Finite r"
        "of_int ?k < r" "r \<le> of_int ?k + 1"
      by auto
    have "(of_int t :: rat) = of_int (?k * p + ?m)"
      by simp
    also have "\<dots> = of_int ?k * of_int p + of_int ?m"
      by (simp only: of_int_add of_int_mult)
    finally have "(of_int t / of_int p :: rat) = (of_int ?k * of_int p + of_int ?m) / of_int p"
      by (rule arg_cong)
    also have "\<dots> = of_int ?k + of_int ?m / of_int p"
      using pq by (simp add: add_divide_distrib)
    finally have x: "(of_int t / of_int p :: rat) = of_int ?k + of_int ?m / of_int p" .
    from m have "(0::rat) < of_int ?m" "(of_int ?m :: rat) < of_int p"
      by (simp_all only: of_int_0_less_iff of_int_less_iff)
    with pq have "(0::rat) < of_int ?m / of_int p" "(of_int ?m / of_int p :: rat) \<le> 1"
      by (simp_all add: less_imp_le)
    then have "of_int ?k < (of_int t / of_int p :: rat)" "(of_int t / of_int p :: rat) \<le> of_int ?k + 1"
      by (simp_all only: x less_add_same_cancel1 add_le_cancel_left)
    then have "\<lceil>of_int t / of_int p :: rat\<rceil> = ?k + 1"
      by (rule ceiling_between)
    moreover have "\<lceil>r\<rceil> = ?k + 1"
      using r(2,3) by (rule ceiling_between)
    ultimately show ?thesis
      using pq by (simp add: ft q(1) qp r(1))
  qed
qed

lemma ceiling_quotient_bounds:
  fixes t p :: int
  assumes "0 \<le> t" and "1 \<le> p"
  shows "0 \<le> \<lceil>of_int t / of_int p :: rat\<rceil>" and "\<lceil>of_int t / of_int p :: rat\<rceil> \<le> t"
proof -
  from assms have pq: "(1::rat) \<le> of_int p" and tq: "(0::rat) \<le> of_int t" by simp_all
  then have "(0::rat) \<le> of_int t / of_int p" by simp
  then show "0 \<le> \<lceil>of_int t / of_int p :: rat\<rceil>" by simp
  have "(of_int t / of_int p :: rat) \<le> of_int t / 1"
    using pq tq by (intro divide_left_mono) simp_all
  then show "\<lceil>of_int t / of_int p :: rat\<rceil> \<le> t"
    by (simp add: ceiling_le_iff)
qed

lemma CalculatePagination_enabled:
  assumes "\<not> IsDisabled pagination"
    and "0 \<le> totalCount" and "totalCount \<le> 2 ^ 53"
    and "1 \<le> PerPage pagination" and "PerPage pagination < 2 ^ 63"
  shows "CalculatePagination indef pagination totalCount =
    \<lparr>PaginationResponse.Page = Page pagination, PerPage = PerPage pagination,
     MaxPage = max 1 \<lceil>of_int totalCount / of_int (PerPage pagination) :: rat\<rceil>,
     Total = totalCount, IsDisabled = False\<rparr>"
proof -
  define c where "c = \<lceil>of_int totalCount / of_int (PerPage pagination) :: rat\<rceil>"
  from f64_div_ceiling [OF assms(2-5)]
  obtain r where r: "f64_div (float64_of_int totalCount) (float64_of_int (PerPage pagination))
      = Finite r" "\<lceil>r\<rceil> = c"
    unfolding c_def by blast
  have "(2::int) ^ 53 < 2 ^ 63" by simp
  with ceiling_quotient_bounds [OF assms(2,4)] assms(3)
  have c: "0 \<le> c" "c < 2 ^ 63" unfolding c_def by linarith+
  then have "int64_of_float64 indef (Ceil (Finite r)) = c"
    by (simp add: int64_of_float64_def r(2))
  moreover have "(if c = 0 then 1 else c) = max 1 c"
    using c(1) by (simp add: max_def)
  ultimately show ?thesis
    using assms(1) by (simp add: CalculatePagination_def r(1) Let_def c_def [symmetric])
qed

text \<open>
  The integer \<open>2^53 + 1\<close> lies half way between two binary64 values and is rounded to the
  even one, \<open>2^53\<close>.
\<close>

lemma float64_of_int_tie: "float64_of_int 9007199254740993 = Finite 9007199254740992"
proof -
  have "f64_round 9007199254740993 =
    Finite (of_int (round_half_even (9007199254740993 / 2 powi (53 - 52))) * 2 powi (53 - 52))"
    by (rule f64_round_in_binade) simp_all
  also have "round_half_even (9007199254740993 / 2 powi (53 - 52)) = 4503599627370496"
    using floor_unique [of 4503599627370496 "9007199254740993 / 2 :: rat"]
    by (simp add: round_half_even_def Let_def)
  finally show ?thesis
    by (simp add: float64_of_int_def)
qed

text \<open>A zero total divided by a divisor other than zero is a zero.\<close>

lemma f64_round_zero: "f64_round 0 = Finite 0"
  by (simp add: f64_round_def)

lemma f64_round_nonzero:
  assumes "1 \<le> \<bar>x\<bar>"
  shows "f64_round x \<noteq> Finite 0" and "f64_round x \<noteq> NaN"
proof -
  define a where "a = \<bar>x\<bar>"
  define r :: rat
    where "r = of_int (round_half_even (a / 2 powi (binade a - 52))) * 2 powi (binade a - 52)"
  let ?u = "(2::rat) powi (binade a - 52)"
  from assms have a1: "1 \<le> a" and pos: "0 < a" and x0: "x \<noteq> 0"
    by (auto simp add: a_def)
  have e: "max (binade a) (- 1022) = binade a"
    using binade_of_int_nonneg [OF a1] by simp
  have u: "0 < ?u" by simp
  have "binade a = 52 + (binade a - 52)" by simp
  then have "2 powi (binade a) = 2 powi 52 * ?u"
    by (metis pow2_add)
  with binade_bounds(1) [OF pos] have "2 ^ 52 * ?u \<le> a" by simp
  with u have "of_int (2 ^ 52) \<le> a / ?u"
    by (simp add: pos_le_divide_eq)
  then have "2 ^ 52 \<le> round_half_even (a / ?u)" by (rule rhe_ge)
  then have "(0::rat) < of_int (round_half_even (a / ?u))" by simp
  with u have r: "0 < r" by (simp add: r_def)
  have "f64_round x =
      (if 2 powi 1024 \<le> r then (if 0 < x then PosInf else NegInf)
       else Finite (if x < 0 then - r else r))"
    by (simp only: f64_round_def Let_def a_def [symmetric] e r_def [symmetric] x0 if_False)
  with r show "f64_round x \<noteq> Finite 0" and "f64_round x \<noteq> NaN"
    by auto
qed

lemma f64_div_zero_total:
  assumes "p \<noteq> 0"
  shows "f64_div (float64_of_int 0) (float64_of_int p) = Finite 0"
proof -
  from assms have "1 \<le> \<bar>p\<bar>" by simp
  then have "(of_int 1 :: rat) \<le> of_int \<bar>p\<bar>" by (simp only: of_int_le_iff)
  then have "1 \<le> \<bar>of_int p :: rat\<bar>" by simp
  from f64_round_nonzero [OF this] show ?thesis
    by (cases "float64_of_int p") (simp_all add: float64_of_int_def f64_round_zero)
qed

section \<open>Lemmas: the include loops\<close>

lemma Validate_loop_filter:
  "Validate_loop allowed requested acc = acc @ filter (index_map allowed) requested"
  by (induction requested arbitrary: acc) simp_all

lemma SecureValidate_loop_filter:
  "SecureValidate_loop allowed requested acc =
    acc @ filter (\<lambda>name. index_map allowed name \<and> isValidInclude name) requested"
  by (induction requested arbitrary: acc) simp_all

lemma filter_allowed_valid:
  assumes "\<And>name. index_map allowed name \<Longrightarrow> isValidInclude name"
  shows "filter (index_map allowed) requested =
    filter (\<lambda>name. index_map allowed name \<and> isValidInclude name) requested"
  using assms by (intro filter_cong) auto

lemma isValidInclude_literals:
  "isValidInclude ''Athletes''" "isValidInclude ''Events''" "isValidInclude ''Sport''"
  "isValidInclude ''Province''" "isValidInclude ''PlayersEvents''" "isValidInclude ''Profile''"
  "isValidInclude ''Posts''" "isValidInclude ''Orders''"
  by (simp_all add: isValidInclude_def include_char_def)

lemma allowed_names_valid:
  "index_map ProvinceFilter_GetAllowedIncludes name \<Longrightarrow> isValidInclude name"
  "index_map SportFilter_GetAllowedIncludes name \<Longrightarrow> isValidInclude name"
  "index_map EventFilter_GetAllowedIncludes name \<Longrightarrow> isValidInclude name"
  "index_map AthleteFilter_GetAllowedIncludes name \<Longrightarrow> isValidInclude name"
  "index_map UserFilter_GetAllowedIncludes name \<Longrightarrow> isValidInclude name"
  by (auto simp add: index_map_def ProvinceFilter_GetAllowedIncludes_def
      SportFilter_GetAllowedIncludes_def EventFilter_GetAllowedIncludes_def
      AthleteFilter_GetAllowedIncludes_def UserFilter_GetAllowedIncludes_def
      isValidInclude_literals split: if_splits)

section \<open>Lemmas: binding\<close>

lemma Atoi_empty: "Atoi '''' = None"
  by (simp add: Atoi_def)

lemma ToLower_empty: "ToLower '''' = ''''"
  by (simp add: ToLower_def)

lemma bind_page_step:
  "(if s \<noteq> '''' then
      (case Atoi s of
         Some page \<Rightarrow> if page > 0 then r\<lparr>Page := page\<rparr> else r
       | None \<Rightarrow> r)
    else r) =
   r\<lparr>Page := (case Atoi s of Some page \<Rightarrow> if 0 < page then page else Page r | None \<Rightarrow> Page r)\<rparr>"
  by (cases "Atoi s") (auto simp add: Atoi_empty)

lemma bind_per_page_step:
  "(if s \<noteq> '''' then
      (case Atoi s of
         Some perPage \<Rightarrow> if perPage > 0 \<and> perPage \<le> 100 then r\<lparr>PerPage := perPage\<rparr> else r
       | None \<Rightarrow> r)
    else r) =
   r\<lparr>PerPage := (case Atoi s of
                   Some perPage \<Rightarrow> if 0 < perPage \<and> perPage \<le> 100 then perPage else PerPage r
                 | None \<Rightarrow> PerPage r)\<rparr>"
  by (cases "Atoi s") (auto simp add: Atoi_empty)

lemma bind_order_step:
  "(if s = ''desc'' \<or> s = ''asc'' then r\<lparr>Order := s\<rparr> else r) =
   r\<lparr>Order := (if s = ''desc'' \<or> s = ''asc'' then s else Order r)\<rparr>"
  by simp

lemma bind_disabled_step:
  "(if s \<noteq> '''' then
      (if ToLower s \<in> set [''1'', ''true'', ''yes'', ''y'', ''on'']
       then r\<lparr>IsDisabled := True\<rparr> else r\<lparr>IsDisabled := False\<rparr>)
    else r) =
   r\<lparr>IsDisabled := (if s \<noteq> '''' then ToLower s \<in> {''1'', ''true'', ''yes'', ''y'', ''on''}
                     else IsDisabled r)\<rparr>"
  by simp

lemma Validate_id:
  assumes "0 < Page p" and "0 < PerPage p" and "Order p = ''asc'' \<or> Order p = ''desc''"
  shows "Validate p = p"
  using assms by (auto simp add: Validate_def Let_def)

lemma bound_page_pos:
  "0 < (case Atoi s of Some page \<Rightarrow> if 0 < page then page else 1 | None \<Rightarrow> (1::int))"
  by (simp split: option.splits)

lemma bound_per_page_pos:
  "0 < (case Atoi s of
          Some perPage \<Rightarrow> if 0 < perPage \<and> perPage \<le> 100 then perPage else 10
        | None \<Rightarrow> (10::int))"
  by (simp split: option.splits)

lemma BindPagination_eq:
  "BindPagination ctx =
    \<lparr>Page = (case Atoi (Query ctx ''page'') of
               Some page \<Rightarrow> if 0 < page then page else 1
             | None \<Rightarrow> 1),
     PerPage = (case Atoi (Query ctx ''per_page'') of
                  Some perPage \<Rightarrow> if 0 < perPage \<and> perPage \<le> 100 then perPage else 10
                | None \<Rightarrow> 10),
     Search = Query ctx ''search'',
     Sort = Query ctx ''sort'',
     Order = (if Query ctx ''order'' = ''desc'' then ''desc'' else ''asc''),
     IsDisabled = (ToLower (Query ctx ''is_disabled'') \<in> {''1'', ''true'', ''yes'', ''y'', ''on''})\<rparr>"
  (is "_ = ?r")
proof -
  have "BindPagination ctx = Validate ?r"
    unfolding BindPagination_def Let_def bind_page_step bind_per_page_step bind_order_step
      bind_disabled_step
    by (cases "Query ctx ''is_disabled'' = ''''") (simp_all add: ToLower_empty cong: option.case_cong if_cong)
  also have "Validate ?r = ?r"
    by (rule Validate_id) (simp_all add: bound_page_pos bound_per_page_pos)
  finally show ?thesis .
qed


section \<open>Lemmas: the sort field\<close>

text \<open>The assertions of \<open>TestSQLInjectionPrevention\<close> on \<open>isValidSortField\<close>.\<close>

lemma isValidSortField_tests:
  "isValidSortField ''name''" "isValidSortField ''user.name''" "isValidSortField ''created_at''"
  "\<not> isValidSortField ''name; DROP TABLE users;''"
  "\<not> isValidSortField ''name' OR '1'='1''"
  "\<not> isValidSortField ''''"
  by (simp_all add: isValidSortField_def sort_first_char_def include_char_def)

section \<open>Lemmas: the search clause\<close>

lemma take_Suc_list_update:
  "i < length xs \<Longrightarrow> take (Suc i) (xs[i := v]) = take i xs @ [v]"
  by (simp add: take_Suc_conv_app_nth)

lemma search_loop_eq:
  assumes "i + length fs = length conditions" and "length args = length conditions"
  shows "search_loop operator searchPattern i fs (conditions, args) =
    (take i conditions @ map (\<lambda>field. field @ '' '' @ operator @ '' ?'') fs,
     take i args @ replicate (length fs) searchPattern)"
  using assms
proof (induction fs arbitrary: i conditions args)
  case Nil
  then show ?case by simp
next
  case (Cons field rest)
  then have i: "i < length conditions" "i < length args" by simp_all
  have "search_loop operator searchPattern (i + 1) rest
        (conditions[i := field @ '' '' @ operator @ '' ?''], args[i := searchPattern]) =
      (take (i + 1) (conditions[i := field @ '' '' @ operator @ '' ?'']) @
         map (\<lambda>field. field @ '' '' @ operator @ '' ?'') rest,
       take (i + 1) (args[i := searchPattern]) @ replicate (length rest) searchPattern)"
    using Cons.prems by (intro Cons.IH) simp_all
  with i show ?case
    by (simp add: take_Suc_list_update replicate_app_Cons_same)
qed

lemma search_loop_all:
  "search_loop operator searchPattern 0 fs
      (replicate (length fs) c, replicate (length fs) a) =
    (map (\<lambda>field. field @ '' '' @ operator @ '' ?'') fs,
     replicate (length fs) searchPattern)"
  using search_loop_eq [of 0 fs "replicate (length fs) c" "replicate (length fs) a"
      operator searchPattern]
  by simp

lemma CreateSearchableFilter_eq:
  assumes "searchFields \<noteq> []" and "searchTerm \<noteq> ''''"
  shows "CreateSearchableFilter searchFields dialect query searchTerm =
    (let operator = (if dialect = PostgreSQL then ''ILIKE'' else ''LIKE'')
     in query @
        [(if length searchFields = 1 then hd searchFields @ '' '' @ operator @ '' ?''
          else ''('' @
               Join (map (\<lambda>field. field @ '' '' @ operator @ '' ?'') searchFields) '' OR '' @
               '')'',
          replicate (length searchFields) (StringArg (''%'' @ searchTerm @ ''%'')))])"
proof (cases "length searchFields = 1")
  case True
  then obtain field where "searchFields = [field]"
    by (cases searchFields) simp_all
  with assms show ?thesis
    by (simp add: CreateSearchableFilter_def Where_def Let_def)
next
  case False
  with assms show ?thesis
    by (simp add: CreateSearchableFilter_def Where_def Let_def search_loop_all)
qed

section \<open>Lemmas: the executor\<close>

lemma PaginatedQuery_spec_error:
  assumes "Count db builder pagination = Inl e \<or>
    (\<exists>n. Count db builder pagination = Inr n \<and> Fetch db builder pagination includes = Inl e)"
  shows "PaginatedQuery_spec db builder pagination includes = (builder, [], 0, Some e)"
  using assms by (auto simp add: PaginatedQuery_spec_def)

section \<open>Properties\<close>

subsection \<open>Include resolution\<close>

text \<open>
  C1. For every allow-list and every requested list, the loop of \<open>Validate()\<close> replaces
  \<open>Includes\<close> with exactly the requested names that the allow-list maps to \<open>true\<close>, in the
  order of the request; the other names are dropped, and no error is produced (the result
  is always a list). \<open>SecureUserFilter.Validate\<close> requires in addition that a name pass
  \<open>isValidInclude\<close>. The \<open>Validate\<close> of \<open>ProvinceFilter\<close>, \<open>SportFilter\<close>, \<open>EventFilter\<close>,
  \<open>AthleteFilter\<close> and \<open>UserFilter\<close> does not call \<open>isValidInclude\<close>: it keeps every name its
  allow-list maps to \<open>true\<close>; all the names these five allow-lists hold pass
  \<open>isValidInclude\<close>, so for them the result is the same. With the allow-list
  \<open>{Province: true, Sport: true}\<close> and the request \<open>[Province, Secret]\<close> both loops give
  \<open>[Province]\<close>.
\<close>

theorem Validate_includes:
  "Validate_loop allowed requested [] = filter (index_map allowed) requested \<and>
   SecureValidate_loop allowed requested [] =
     filter (\<lambda>name. index_map allowed name \<and> isValidInclude name) requested \<and>
   Includes (ProvinceFilter_Validate f1) =
     filter (index_map ProvinceFilter_GetAllowedIncludes) (Includes f1) \<and>
   Includes (SportFilter_Validate f2) =
     filter (index_map SportFilter_GetAllowedIncludes) (Includes f2) \<and>
   Includes (EventFilter_Validate f3) =
     filter (index_map EventFilter_GetAllowedIncludes) (Includes f3) \<and>
   Includes (AthleteFilter_Validate f4) =
     filter (index_map AthleteFilter_GetAllowedIncludes) (Includes f4) \<and>
   Includes (UserFilter_Validate f5) =
     filter (index_map UserFilter_GetAllowedIncludes) (Includes f5) \<and>
   Includes (SecureUserFilter_Validate f6) =
     filter (\<lambda>name. index_map SecureUserFilter_GetAllowedIncludes name \<and> isValidInclude name)
       (Includes f6) \<and>
   filter (index_map ProvinceFilter_GetAllowedIncludes) requested =
     filter (\<lambda>name. index_map ProvinceFilter_GetAllowedIncludes name \<and> isValidInclude name)
       requested \<and>
   filter (index_map SportFilter_GetAllowedIncludes) requested =
     filter (\<lambda>name. index_map SportFilter_GetAllowedIncludes name \<and> isValidInclude name)
       requested \<and>
   filter (index_map EventFilter_GetAllowedIncludes) requested =
     filter (\<lambda>name. index_map EventFilter_GetAllowedIncludes name \<and> isValidInclude name)
       requested \<and>
   filter (index_map AthleteFilter_GetAllowedIncludes) requested =
     filter (\<lambda>name. index_map AthleteFilter_GetAllowedIncludes name \<and> isValidInclude name)
       requested \<and>
   filter (index_map UserFilter_GetAllowedIncludes) requested =
     filter (\<lambda>name. index_map UserFilter_GetAllowedIncludes name \<and> isValidInclude name)
       requested \<and>
   Validate_loop [''Province'' \<mapsto> True, ''Sport'' \<mapsto> True] [''Province'', ''Secret''] []
     = [''Province''] \<and>
   SecureValidate_loop [''Province'' \<mapsto> True, ''Sport'' \<mapsto> True] [''Province'', ''Secret''] []
     = [''Province'']"
proof -
  have own: "filter (index_map ProvinceFilter_GetAllowedIncludes) requested =
      filter (\<lambda>name. index_map ProvinceFilter_GetAllowedIncludes name \<and> isValidInclude name)
        requested"
    "filter (index_map SportFilter_GetAllowedIncludes) requested =
      filter (\<lambda>name. index_map SportFilter_GetAllowedIncludes name \<and> isValidInclude name)
        requested"
    "filter (index_map EventFilter_GetAllowedIncludes) requested =
      filter (\<lambda>name. index_map EventFilter_GetAllowedIncludes name \<and> isValidInclude name)
        requested"
    "filter (index_map AthleteFilter_GetAllowedIncludes) requested =
      filter (\<lambda>name. index_map AthleteFilter_GetAllowedIncludes name \<and> isValidInclude name)
        requested"
    "filter (index_map UserFilter_GetAllowedIncludes) requested =
      filter (\<lambda>name. index_map UserFilter_GetAllowedIncludes name \<and> isValidInclude name)
        requested"
    by (rule filter_allowed_valid, erule allowed_names_valid)+
  have loops: "Validate_loop allowed requested [] = filter (index_map allowed) requested"
    "SecureValidate_loop allowed requested [] =
      filter (\<lambda>name. index_map allowed name \<and> isValidInclude name) requested"
    by (simp_all add: Validate_loop_filter SecureValidate_loop_filter)
  have filters: "Includes (ProvinceFilter_Validate f1) =
      filter (index_map ProvinceFilter_GetAllowedIncludes) (Includes f1)"
    "Includes (SportFilter_Validate f2) =
      filter (index_map SportFilter_GetAllowedIncludes) (Includes f2)"
    "Includes (EventFilter_Validate f3) =
      filter (index_map EventFilter_GetAllowedIncludes) (Includes f3)"
    "Includes (AthleteFilter_Validate f4) =
      filter (index_map AthleteFilter_GetAllowedIncludes) (Includes f4)"
    "Includes (UserFilter_Validate f5) =
      filter (index_map UserFilter_GetAllowedIncludes) (Includes f5)"
    "Includes (SecureUserFilter_Validate f6) =
      filter (\<lambda>name. index_map SecureUserFilter_GetAllowedIncludes name \<and> isValidInclude name)
        (Includes f6)"
    by (simp_all add: ProvinceFilter_Validate_def SportFilter_Validate_def
        EventFilter_Validate_def AthleteFilter_Validate_def UserFilter_Validate_def
        SecureUserFilter_Validate_def Validate_loop_filter SecureValidate_loop_filter)
  have example: "Validate_loop [''Province'' \<mapsto> True, ''Sport'' \<mapsto> True]
      [''Province'', ''Secret''] [] = [''Province'']"
    "SecureValidate_loop [''Province'' \<mapsto> True, ''Sport'' \<mapsto> True]
      [''Province'', ''Secret''] [] = [''Province'']"
    by (simp_all add: index_map_def isValidInclude_literals)
  from loops filters own example show ?thesis
    by (intro conjI)
qed

theorem Validate_includes_witness:
  "Includes (AthleteFilter_Validate
      \<lparr>Pagination = BindPagination Map.empty,
       Includes = [''Sport'', ''Secret'', ''Province'', ''Sport; DROP TABLE'']\<rparr>)
    = [''Sport'', ''Province''] \<and>
   Includes (SecureUserFilter_Validate
      \<lparr>Pagination = BindPagination Map.empty,
       Includes = [''Posts'', ''AdminData'', ''Profile'']\<rparr>)
    = [''Posts'', ''Profile''] \<and>
   Validate_loop [''Posts'' \<mapsto> True, ''Posts; DROP TABLE'' \<mapsto> True, ''Drafts'' \<mapsto> False]
      [''Drafts'', ''Posts; DROP TABLE'', ''Tags'', ''Posts''] []
    = [''Posts; DROP TABLE'', ''Posts''] \<and>
   SecureValidate_loop
      [''Posts'' \<mapsto> True, ''Posts; DROP TABLE'' \<mapsto> True, ''Drafts'' \<mapsto> False]
      [''Drafts'', ''Posts; DROP TABLE'', ''Tags'', ''Posts''] []
    = [''Posts'']"
  using Validate_includes
    [of "[''Posts'' \<mapsto> True, ''Posts; DROP TABLE'' \<mapsto> True, ''Drafts'' \<mapsto> False]"
       "[''Drafts'', ''Posts; DROP TABLE'', ''Tags'', ''Posts'']"
       "\<lparr>Pagination = BindPagination Map.empty, Includes = []\<rparr>"
       "\<lparr>Pagination = BindPagination Map.empty, Includes = []\<rparr>"
       "\<lparr>Pagination = BindPagination Map.empty, Includes = []\<rparr>"
       "\<lparr>Pagination = BindPagination Map.empty,
         Includes = [''Sport'', ''Secret'', ''Province'', ''Sport; DROP TABLE'']\<rparr>"
       "\<lparr>Pagination = BindPagination Map.empty, Includes = []\<rparr>"
       "\<lparr>Pagination = BindPagination Map.empty,
         Includes = [''Posts'', ''AdminData'', ''Profile'']\<rparr>"]
  by (simp add: index_map_def AthleteFilter_GetAllowedIncludes_def
      SecureUserFilter_GetAllowedIncludes_def isValidInclude_def include_char_def)

theorem Validate_includes_counterexample:
  "Validate_loop [''Posts'' \<mapsto> True, ''Posts; DROP TABLE'' \<mapsto> True]
      [''Posts; DROP TABLE'', ''Posts''] []
    = [''Posts; DROP TABLE'', ''Posts''] \<and>
   \<not> isValidInclude ''Posts; DROP TABLE'' \<and>
   filter (\<lambda>name. index_map [''Posts'' \<mapsto> True, ''Posts; DROP TABLE'' \<mapsto> True] name \<and>
        isValidInclude name) [''Posts; DROP TABLE'', ''Posts'']
    = [''Posts'']"
  by (simp add: index_map_def isValidInclude_def include_char_def)

subsection \<open>The cap on the page size\<close>

text \<open>
  C2. Whatever \<open>per_page\<close> the client sends, the bound \<open>PerPage\<close> lies between 1 and 100.
  A value above 100 is not kept: the request falls back to the default 10, which is at
  most 100; so does a value of 0 or less and a value that is not a number. A value from 1
  to 100 is kept as it is.
\<close>

theorem BindPagination_PerPage_capped:
  "1 \<le> PerPage (BindPagination ctx) \<and> PerPage (BindPagination ctx) \<le> 100 \<and>
   (\<forall>perPage. Atoi (Query ctx ''per_page'') = Some perPage \<and> 100 < perPage \<longrightarrow>
      PerPage (BindPagination ctx) = 10) \<and>
   (\<forall>perPage. Atoi (Query ctx ''per_page'') = Some perPage \<and> perPage \<le> 0 \<longrightarrow>
      PerPage (BindPagination ctx) = 10) \<and>
   (\<forall>perPage. Atoi (Query ctx ''per_page'') = Some perPage \<and> 0 < perPage \<and> perPage \<le> 100 \<longrightarrow>
      PerPage (BindPagination ctx) = perPage) \<and>
   (Atoi (Query ctx ''per_page'') = None \<longrightarrow> PerPage (BindPagination ctx) = 10)"
  by (simp add: BindPagination_eq split: option.splits)

theorem BindPagination_PerPage_capped_witness:
  "Atoi (Query [''per_page'' \<mapsto> ''150''] ''per_page'') = Some 150 \<and>
   PerPage (BindPagination [''per_page'' \<mapsto> ''150'']) = 10 \<and>
   Atoi (Query [''per_page'' \<mapsto> ''-3''] ''per_page'') = Some (- 3) \<and>
   PerPage (BindPagination [''per_page'' \<mapsto> ''-3'']) = 10 \<and>
   Atoi (Query [''per_page'' \<mapsto> ''100''] ''per_page'') = Some 100 \<and>
   PerPage (BindPagination [''per_page'' \<mapsto> ''100'']) = 100 \<and>
   Atoi (Query [''per_page'' \<mapsto> ''ten''] ''per_page'') = None \<and>
   PerPage (BindPagination [''per_page'' \<mapsto> ''ten'']) = 10"
proof -
  have a: "Atoi (Query [''per_page'' \<mapsto> ''150''] ''per_page'') = Some 150"
    "Atoi (Query [''per_page'' \<mapsto> ''-3''] ''per_page'') = Some (- 3)"
    "Atoi (Query [''per_page'' \<mapsto> ''100''] ''per_page'') = Some 100"
    "Atoi (Query [''per_page'' \<mapsto> ''ten''] ''per_page'') = None"
    by (simp_all add: Query_def Atoi_def is_digit_def)
  with BindPagination_PerPage_capped [of "[''per_page'' \<mapsto> ''150'']"]
    BindPagination_PerPage_capped [of "[''per_page'' \<mapsto> ''-3'']"]
    BindPagination_PerPage_capped [of "[''per_page'' \<mapsto> ''100'']"]
    BindPagination_PerPage_capped [of "[''per_page'' \<mapsto> ''ten'']"]
  show ?thesis by simp
qed

subsection \<open>The page count\<close>

text \<open>
  C3. For every total with \<open>0 \<le> total \<le> 2^53\<close> and every request that is
  not disabled and has \<open>1 \<le> PerPage\<close> (an \<open>int\<close>, so below \<open>2^63\<close>),
  \<open>CalculatePagination\<close> returns \<open>MaxPage = max(1, ceil(total / PerPage))\<close>, the
  ceiling being that of the exact quotient; in particular \<open>total = 25\<close>, \<open>PerPage = 10\<close>
  gives 3 and \<open>total = 0\<close> gives 1. Beyond \<open>2^53\<close> the conversion of the total to
  \<open>float64\<close> rounds, and the result can differ from the exact ceiling.
\<close>

theorem CalculatePagination_MaxPage_ceiling:
  assumes "\<not> IsDisabled pagination"
    and "0 \<le> totalCount" and "totalCount \<le> 2 ^ 53"
    and "1 \<le> PerPage pagination" and "PerPage pagination < 2 ^ 63"
  shows "MaxPage (CalculatePagination indef pagination totalCount) =
    max 1 \<lceil>of_int totalCount / of_int (PerPage pagination) :: rat\<rceil>"
  by (simp add: CalculatePagination_enabled [OF assms])

theorem CalculatePagination_MaxPage_ceiling_witness:
  "MaxPage (CalculatePagination amd64_indef
      \<lparr>Page = 2, PerPage = 10, Search = '''', Sort = '''', Order = ''asc'',
       IsDisabled = False\<rparr> 25) = 3 \<and>
   MaxPage (CalculatePagination amd64_indef
      \<lparr>Page = 1, PerPage = 10, Search = '''', Sort = '''', Order = ''asc'',
       IsDisabled = False\<rparr> 0) = 1"
  using CalculatePagination_MaxPage_ceiling
      [of "\<lparr>Page = 2, PerPage = 10, Search = '''', Sort = '''', Order = ''asc'',
            IsDisabled = False\<rparr>" 25 amd64_indef]
    CalculatePagination_MaxPage_ceiling
      [of "\<lparr>Page = 1, PerPage = 10, Search = '''', Sort = '''', Order = ''asc'',
            IsDisabled = False\<rparr>" 0 amd64_indef]
    ceiling_unique [of 3 "5 / 2 :: rat"]
  by simp

theorem CalculatePagination_MaxPage_counterexample:
  "MaxPage (CalculatePagination amd64_indef
      \<lparr>Page = 1, PerPage = 1, Search = '''', Sort = '''', Order = ''asc'',
       IsDisabled = False\<rparr> 9007199254740993) = 9007199254740992 \<and>
   max 1 \<lceil>of_int 9007199254740993 / of_int 1 :: rat\<rceil> = 9007199254740993"
proof -
  have "float64_of_int 1 = Finite 1"
    using float64_of_int_exact [of 1] by simp
  moreover have "f64_round 9007199254740992 = Finite 9007199254740992"
    using f64_round_int_exact [of 9007199254740992] by simp
  ultimately show ?thesis
    by (simp add: CalculatePagination_def float64_of_int_tie int64_of_float64_def)
qed

subsection \<open>Disabled pagination\<close>

text \<open>
  C4. For every request with \<open>IsDisabled\<close> set and every total,
  \<open>CalculatePagination\<close> returns exactly \<open>{Page: 1, PerPage: total, MaxPage: 1, Total: total,
  IsDisabled: true}\<close>, whatever the request's \<open>Page\<close> and \<open>PerPage\<close>. \<open>MaxPage\<close> is 1 whenever
  pagination is disabled, and whenever the total is 0 and the request's \<open>PerPage\<close> is not 0.
  (With a total of 0 and a \<open>PerPage\<close> of 0 the quotient is a NaN, and \<open>MaxPage\<close> is what the
  platform makes of it.)
\<close>

theorem CalculatePagination_disabled:
  "(IsDisabled pagination \<longrightarrow>
      CalculatePagination indef pagination totalCount =
        \<lparr>PaginationResponse.Page = 1, PerPage = totalCount, MaxPage = 1, Total = totalCount,
         IsDisabled = True\<rparr>) \<and>
   (IsDisabled pagination \<or> (totalCount = 0 \<and> PerPage pagination \<noteq> 0) \<longrightarrow>
      MaxPage (CalculatePagination indef pagination totalCount) = 1)"
  by (auto simp add: CalculatePagination_def f64_div_zero_total int64_of_float64_def)

theorem CalculatePagination_disabled_witness:
  "CalculatePagination amd64_indef
      \<lparr>Page = 7, PerPage = 3, Search = '''', Sort = '''', Order = ''asc'', IsDisabled = True\<rparr>
      42 =
     \<lparr>PaginationResponse.Page = 1, PerPage = 42, MaxPage = 1, Total = 42, IsDisabled = True\<rparr> \<and>
   MaxPage (CalculatePagination amd64_indef
      \<lparr>Page = 7, PerPage = 3, Search = '''', Sort = '''', Order = ''asc'', IsDisabled = False\<rparr>
      0) = 1"
  using CalculatePagination_disabled
      [of "\<lparr>Page = 7, PerPage = 3, Search = '''', Sort = '''', Order = ''asc'',
            IsDisabled = True\<rparr>" amd64_indef 42]
    CalculatePagination_disabled
      [of "\<lparr>Page = 7, PerPage = 3, Search = '''', Sort = '''', Order = ''asc'',
            IsDisabled = False\<rparr>" amd64_indef 0]
  by simp

theorem CalculatePagination_zero_total_counterexample:
  "MaxPage (CalculatePagination amd64_indef
      \<lparr>Page = 1, PerPage = 0, Search = '''', Sort = '''', Order = ''asc'', IsDisabled = False\<rparr>
      0) = - 9223372036854775808"
  by (simp add: CalculatePagination_def float64_of_int_def f64_round_zero
      int64_of_float64_def amd64_indef_def)

subsection \<open>Normalisation\<close>

text \<open>
  C5. For every request, \<open>Validate\<close> yields \<open>Page \<ge> 1\<close> (1 when \<open>Page \<le> 0\<close>),
  \<open>PerPage \<ge> 1\<close> (10 when \<open>PerPage \<le> 0\<close>) and an order among \<open>asc\<close>, \<open>desc\<close>
  (\<open>asc\<close> for every other value, the empty string included); values already in range,
  and the other fields, are left as they are.
\<close>

theorem Validate_normalises:
  "Page (Validate p) = (if Page p \<le> 0 then 1 else Page p) \<and>
   PerPage (Validate p) = (if PerPage p \<le> 0 then 10 else PerPage p) \<and>
   Order (Validate p) = (if Order p = ''asc'' \<or> Order p = ''desc'' then Order p else ''asc'') \<and>
   1 \<le> Page (Validate p) \<and> 1 \<le> PerPage (Validate p) \<and>
   (Order (Validate p) = ''asc'' \<or> Order (Validate p) = ''desc'') \<and>
   Search (Validate p) = Search p \<and> Sort (Validate p) = Sort p \<and>
   IsDisabled (Validate p) = IsDisabled p"
  by (simp add: Validate_def Let_def)

theorem Validate_normalises_witness:
  "Page (Validate \<lparr>Page = 0, PerPage = -5, Search = ''x'', Sort = ''name'',
      Order = ''DESC'', IsDisabled = True\<rparr>) = 1 \<and>
   PerPage (Validate \<lparr>Page = 0, PerPage = -5, Search = ''x'', Sort = ''name'',
      Order = ''DESC'', IsDisabled = True\<rparr>) = 10 \<and>
   Order (Validate \<lparr>Page = 0, PerPage = -5, Search = ''x'', Sort = ''name'',
      Order = ''DESC'', IsDisabled = True\<rparr>) = ''asc''"
  using Validate_normalises
    [of "\<lparr>Page = 0, PerPage = -5, Search = ''x'', Sort = ''name'', Order = ''DESC'',
          IsDisabled = True\<rparr>"]
  by simp

subsection \<open>The search operator\<close>

text \<open>
  C6. For every non-empty list of search fields and every non-empty search term, the
  clause builder adds one condition to the query. Its operator is \<open>ILIKE\<close> when the dialect
  is PostgreSQL and \<open>LIKE\<close> for MySQL, SQLite and SQLServer: the text is
  \<open>field OPERATOR ?\<close> for one field and the parenthesised \<open>OR\<close> of such comparisons for
  several. The term reaches the query only as the bound value \<open>%term%\<close>, once for each
  placeholder; the text of the query is the same for every term.
\<close>

theorem CreateSearchableFilter_operator:
  assumes "searchFields \<noteq> []" and "searchTerm \<noteq> ''''"
  shows "CreateSearchableFilter searchFields dialect query searchTerm =
      (let operator = (case dialect of
                         PostgreSQL \<Rightarrow> ''ILIKE''
                       | MySQL \<Rightarrow> ''LIKE''
                       | SQLite \<Rightarrow> ''LIKE''
                       | SQLServer \<Rightarrow> ''LIKE'')
       in query @
          [(if length searchFields = 1 then hd searchFields @ '' '' @ operator @ '' ?''
            else ''('' @
                 Join (map (\<lambda>field. field @ '' '' @ operator @ '' ?'') searchFields) '' OR '' @
                 '')'',
            replicate (length searchFields) (StringArg (''%'' @ searchTerm @ ''%'')))]) \<and>
    (\<forall>otherTerm. otherTerm \<noteq> '''' \<longrightarrow>
       map fst (CreateSearchableFilter searchFields dialect query otherTerm) =
       map fst (CreateSearchableFilter searchFields dialect query searchTerm))"
  by (cases dialect) (simp_all add: CreateSearchableFilter_eq assms Let_def)

theorem CreateSearchableFilter_operator_witness:
  "CreateSearchableFilter [''name'', ''email''] PostgreSQL [] ''john'' =
     [(''(name ILIKE ? OR email ILIKE ?)'', [StringArg ''%john%'', StringArg ''%john%''])] \<and>
   CreateSearchableFilter [''name'', ''email''] SQLite [] ''john'' =
     [(''(name LIKE ? OR email LIKE ?)'', [StringArg ''%john%'', StringArg ''%john%''])] \<and>
   CreateSearchableFilter [''name''] MySQL [(''id = ?'', [StringArg ''7''])] ''%'' =
     [(''id = ?'', [StringArg ''7'']), (''name LIKE ?'', [StringArg ''%%%''])]"
  using CreateSearchableFilter_operator [of "[''name'', ''email'']" "''john''" PostgreSQL "[]"]
    CreateSearchableFilter_operator [of "[''name'', ''email'']" "''john''" SQLite "[]"]
    CreateSearchableFilter_operator
      [of "[''name'']" "''%''" MySQL "[(''id = ?'', [StringArg ''7''])]"]
  by (simp add: Let_def)

subsection \<open>Binding errors\<close>

text \<open>
  C7. \<open>BindPagination\<close> and \<open>Validate\<close> never reject a request. For every query,
  \<open>BindPagination\<close> returns a request and no error: the page sent when it is a positive
  number and 1 otherwise, the \<open>per_page\<close> sent when it is a number from 1 to 100 and 10
  otherwise, the order \<open>desc\<close> when that is what was sent and \<open>asc\<close> otherwise, and
  \<open>is_disabled\<close> true for \<open>1\<close>, \<open>true\<close>, \<open>yes\<close>, \<open>y\<close>, \<open>on\<close> in any case and false otherwise.
  Invalid sort and include names are dropped without an error: the sort resolution uses
  the bound sort name only when it passes \<open>isValidSortField\<close> and the default sort
  otherwise, and \<open>Validate\<close> keeps the allowed include names only.

  The helpers that go on to bind the filter with \<open>ShouldBindQuery\<close> do reject the request
  when that binding returns an error, whichever query parameter the error is about (the
  fields of \<open>PaginationRequest\<close> carry \<open>form\<close> tags, so it may be a pagination field):
  \<open>PaginatedAPIResponseWithQueryLayer\<close> returns the envelope with code 400, status
  \<open>error\<close>, the message \<open>Invalid query parameters: ...\<close>, no data and zero-valued
  pagination; \<open>PaginateWithCustomFilter\<close> and \<open>BindAndValidateFilter\<close> return the error,
  and \<open>PaginatedAPIResponseWithCustomFilter\<close> the envelope with code 500. The query layer
  answers with code 200 when neither \<open>ShouldBindQuery\<close> nor the query function returns an
  error.
\<close>

theorem binding_error_rejects:
  "BindPagination ctx =
     \<lparr>Page = (case Atoi (Query ctx ''page'') of
                Some page \<Rightarrow> if 0 < page then page else 1
              | None \<Rightarrow> 1),
      PerPage = (case Atoi (Query ctx ''per_page'') of
                   Some perPage \<Rightarrow> if 0 < perPage \<and> perPage \<le> 100 then perPage else 10
                 | None \<Rightarrow> 10),
      Search = Query ctx ''search'',
      Sort = Query ctx ''sort'',
      Order = (if Query ctx ''order'' = ''desc'' then ''desc'' else ''asc''),
      IsDisabled =
        (ToLower (Query ctx ''is_disabled'') \<in> {''1'', ''true'', ''yes'', ''y'', ''on''})\<rparr> \<and>
   SortResolution (BindPagination ctx) defaultSort =
     (if isValidSortField (Query ctx ''sort'')
      then Query ctx ''sort'' @ '' '' @ (if Query ctx ''order'' = ''desc'' then ''desc'' else ''asc'')
      else defaultSort) \<and>
   Validate_loop allowed requested [] = filter (index_map allowed) requested \<and>
   SecureValidate_loop allowed requested [] =
     filter (\<lambda>name. index_map allowed name \<and> isValidInclude name) requested \<and>
   (\<forall>e bound.
      ShouldBindQuery ctx
        (case BindPagination_method m of Some bind \<Rightarrow> bind ctx filter' | None \<Rightarrow> filter') =
        (bound, Some e) \<longrightarrow>
      PaginatedAPIResponseWithQueryLayer indef m ShouldBindQuery ctx filter' message queryFunc =
        \<lparr>Code = 400, Status = ''error'', Message = ''Invalid query parameters: '' @ e,
         Data = None, Pagination = PaginationResponse_zero\<rparr> \<and>
      PaginateWithCustomFilter indef m ShouldBindQuery PaginatedQuery db ctx filter' =
        ([], PaginationResponse_zero, Some e) \<and>
      PaginatedAPIResponseWithCustomFilter indef m ShouldBindQuery PaginatedQuery db ctx filter'
          message =
        \<lparr>Code = 500, Status = ''error'', Message = ''Internal Server Error: '' @ e,
         Data = None, Pagination = PaginationResponse_zero\<rparr> \<and>
      BindAndValidateFilter m ShouldBindQuery ctx filter' = (bound, Some e)) \<and>
   (\<forall>bound left rows n.
      ShouldBindQuery ctx
        (case BindPagination_method m of Some bind \<Rightarrow> bind ctx filter' | None \<Rightarrow> filter') =
        (bound, None) \<and>
      queryFunc (case Validate_method m of Some validate \<Rightarrow> validate bound | None \<Rightarrow> bound) =
        (left, rows, n, None) \<longrightarrow>
      PaginatedAPIResponseWithQueryLayer indef m ShouldBindQuery ctx filter' message queryFunc =
        \<lparr>Code = 200, Status = ''success'', Message = message, Data = Some rows,
         Pagination = CalculatePagination indef (GetPagination m left) n\<rparr>)"
proof -
  have bind: "BindPagination ctx =
     \<lparr>Page = (case Atoi (Query ctx ''page'') of
                Some page \<Rightarrow> if 0 < page then page else 1
              | None \<Rightarrow> 1),
      PerPage = (case Atoi (Query ctx ''per_page'') of
                   Some perPage \<Rightarrow> if 0 < perPage \<and> perPage \<le> 100 then perPage else 10
                 | None \<Rightarrow> 10),
      Search = Query ctx ''search'',
      Sort = Query ctx ''sort'',
      Order = (if Query ctx ''order'' = ''desc'' then ''desc'' else ''asc''),
      IsDisabled =
        (ToLower (Query ctx ''is_disabled'') \<in> {''1'', ''true'', ''yes'', ''y'', ''on''})\<rparr>"
    by (rule BindPagination_eq)
  have resolution: "SortResolution (BindPagination ctx) defaultSort =
     (if isValidSortField (Query ctx ''sort'')
      then Query ctx ''sort'' @ '' '' @ (if Query ctx ''order'' = ''desc'' then ''desc'' else ''asc'')
      else defaultSort)"
    by (simp add: SortResolution_def BindPagination_eq)
  have loops: "Validate_loop allowed requested [] = filter (index_map allowed) requested"
    "SecureValidate_loop allowed requested [] =
      filter (\<lambda>name. index_map allowed name \<and> isValidInclude name) requested"
    by (simp_all add: Validate_loop_filter SecureValidate_loop_filter)
  have rejected: "\<forall>e bound.
      ShouldBindQuery ctx
        (case BindPagination_method m of Some bind \<Rightarrow> bind ctx filter' | None \<Rightarrow> filter') =
        (bound, Some e) \<longrightarrow>
      PaginatedAPIResponseWithQueryLayer indef m ShouldBindQuery ctx filter' message queryFunc =
        \<lparr>Code = 400, Status = ''error'', Message = ''Invalid query parameters: '' @ e,
         Data = None, Pagination = PaginationResponse_zero\<rparr> \<and>
      PaginateWithCustomFilter indef m ShouldBindQuery PaginatedQuery db ctx filter' =
        ([], PaginationResponse_zero, Some e) \<and>
      PaginatedAPIResponseWithCustomFilter indef m ShouldBindQuery PaginatedQuery db ctx filter'
          message =
        \<lparr>Code = 500, Status = ''error'', Message = ''Internal Server Error: '' @ e,
         Data = None, Pagination = PaginationResponse_zero\<rparr> \<and>
      BindAndValidateFilter m ShouldBindQuery ctx filter' = (bound, Some e)"
    by (simp add: PaginatedAPIResponseWithQueryLayer_def PaginateWithCustomFilter_def
        PaginatedAPIResponseWithCustomFilter_def BindAndValidateFilter_def
        NewPaginatedResponse_def)
  have answered: "\<forall>bound left rows n.
      ShouldBindQuery ctx
        (case BindPagination_method m of Some bind \<Rightarrow> bind ctx filter' | None \<Rightarrow> filter') =
        (bound, None) \<and>
      queryFunc (case Validate_method m of Some validate \<Rightarrow> validate bound | None \<Rightarrow> bound) =
        (left, rows, n, None) \<longrightarrow>
      PaginatedAPIResponseWithQueryLayer indef m ShouldBindQuery ctx filter' message queryFunc =
        \<lparr>Code = 200, Status = ''success'', Message = message, Data = Some rows,
         Pagination = CalculatePagination indef (GetPagination m left) n\<rparr>"
    by (simp add: PaginatedAPIResponseWithQueryLayer_def PaginatedQueryWithQueryLayer_def
        NewPaginatedResponse_def)
  from bind resolution loops rejected answered show ?thesis
    by (intro conjI)
qed

theorem binding_error_rejects_witness:
  "PaginatedAPIResponseWithQueryLayer amd64_indef
      \<lparr>BindPagination_method = Some (\<lambda>ctx f. BindPagination ctx), Validate_method = None,
       GetPagination = (\<lambda>f. f), GetIncludes = (\<lambda>f. [])\<rparr>
      (\<lambda>ctx f. (f, if Atoi (Query ctx ''id'') = None then Some ''invalid syntax'' else None))
      [''id'' \<mapsto> ''abc''] (BindPagination Map.empty) ''Provinces retrieved successfully''
      (\<lambda>f. (f, [''Bali''], 1, None)) =
     \<lparr>Code = 400, Status = ''error'',
      Message = ''Invalid query parameters: invalid syntax'',
      Data = None, Pagination = PaginationResponse_zero\<rparr> \<and>
   PaginatedAPIResponseWithCustomFilter amd64_indef
      \<lparr>BindPagination_method = Some (\<lambda>ctx f. BindPagination ctx), Validate_method = None,
       GetPagination = (\<lambda>f. f), GetIncludes = (\<lambda>f. [])\<rparr>
      (\<lambda>ctx f. (f, if Atoi (Query ctx ''id'') = None then Some ''invalid syntax'' else None))
      PaginatedQuery_spec
      \<lparr>Count = (\<lambda>b p. Inr 1), Fetch = (\<lambda>b p i. Inr [''Bali''])\<rparr>
      [''id'' \<mapsto> ''abc''] (BindPagination Map.empty) ''Provinces retrieved successfully'' =
     \<lparr>Code = 500, Status = ''error'',
      Message = ''Internal Server Error: invalid syntax'',
      Data = None, Pagination = PaginationResponse_zero\<rparr> \<and>
   PaginatedAPIResponseWithQueryLayer amd64_indef
      \<lparr>BindPagination_method = Some (\<lambda>ctx f. BindPagination ctx), Validate_method = None,
       GetPagination = (\<lambda>f. f), GetIncludes = (\<lambda>f. [])\<rparr>
      (\<lambda>ctx f. (f, if Atoi (Query ctx ''id'') = None then Some ''invalid syntax'' else None))
      [''id'' \<mapsto> ''7''] (BindPagination Map.empty) ''Provinces retrieved successfully''
      (\<lambda>f. (f, [''Bali''], 1, None)) =
     \<lparr>Code = 200, Status = ''success'', Message = ''Provinces retrieved successfully'',
      Data = Some [''Bali''],
      Pagination = CalculatePagination amd64_indef (BindPagination [''id'' \<mapsto> ''7'']) 1\<rparr> \<and>
   BindPagination [''page'' \<mapsto> ''0'', ''per_page'' \<mapsto> ''1e3'', ''order'' \<mapsto> ''DESC'',
       ''is_disabled'' \<mapsto> ''maybe'', ''sort'' \<mapsto> ''name; DROP TABLE users'']
     = \<lparr>Page = 1, PerPage = 10, Search = '''', Sort = ''name; DROP TABLE users'',
        Order = ''asc'', IsDisabled = False\<rparr> \<and>
   SortResolution
     (BindPagination [''page'' \<mapsto> ''0'', ''per_page'' \<mapsto> ''1e3'', ''order'' \<mapsto> ''DESC'',
       ''is_disabled'' \<mapsto> ''maybe'', ''sort'' \<mapsto> ''name; DROP TABLE users''])
     ''id asc'' = ''id asc''"
proof -
  have "Atoi ''0'' = Some 0" "Atoi ''1e3'' = None"
    by (simp_all add: Atoi_def is_digit_def)
  moreover have "ToLower ''maybe'' = ''maybe''"
    by (simp add: ToLower_def)
  ultimately have fields: "BindPagination [''page'' \<mapsto> ''0'', ''per_page'' \<mapsto> ''1e3'',
       ''order'' \<mapsto> ''DESC'', ''is_disabled'' \<mapsto> ''maybe'',
       ''sort'' \<mapsto> ''name; DROP TABLE users'']
     = \<lparr>Page = 1, PerPage = 10, Search = '''', Sort = ''name; DROP TABLE users'',
        Order = ''asc'', IsDisabled = False\<rparr>"
    using binding_error_rejects
      [THEN conjunct1,
        of "[''page'' \<mapsto> ''0'', ''per_page'' \<mapsto> ''1e3'', ''order'' \<mapsto> ''DESC'',
            ''is_disabled'' \<mapsto> ''maybe'', ''sort'' \<mapsto> ''name; DROP TABLE users'']"]
    by (simp add: Query_def)
  have "\<not> isValidSortField ''name; DROP TABLE users''"
    by (simp add: isValidSortField_def sort_first_char_def include_char_def)
  then have sort: "SortResolution
     (BindPagination [''page'' \<mapsto> ''0'', ''per_page'' \<mapsto> ''1e3'', ''order'' \<mapsto> ''DESC'',
       ''is_disabled'' \<mapsto> ''maybe'', ''sort'' \<mapsto> ''name; DROP TABLE users''])
     ''id asc'' = ''id asc''"
    using binding_error_rejects
      [THEN conjunct2, THEN conjunct1,
        of "[''page'' \<mapsto> ''0'', ''per_page'' \<mapsto> ''1e3'', ''order'' \<mapsto> ''DESC'',
            ''is_disabled'' \<mapsto> ''maybe'', ''sort'' \<mapsto> ''name; DROP TABLE users'']"
           "''id asc''"]
    by (simp add: Query_def)
  have abc: "Atoi (Query [''id'' \<mapsto> ''abc''] ''id'') = None"
    and seven: "Atoi (Query [''id'' \<mapsto> ''7''] ''id'') = Some 7"
    by (simp_all add: Query_def Atoi_def is_digit_def)
  have rejected: "PaginatedAPIResponseWithQueryLayer amd64_indef
      \<lparr>BindPagination_method = Some (\<lambda>ctx f. BindPagination ctx), Validate_method = None,
       GetPagination = (\<lambda>f. f), GetIncludes = (\<lambda>f. [])\<rparr>
      (\<lambda>ctx f. (f, if Atoi (Query ctx ''id'') = None then Some ''invalid syntax'' else None))
      [''id'' \<mapsto> ''abc''] (BindPagination Map.empty) ''Provinces retrieved successfully''
      (\<lambda>f. (f, [''Bali''], 1, None)) =
     \<lparr>Code = 400, Status = ''error'',
      Message = ''Invalid query parameters: invalid syntax'',
      Data = None, Pagination = PaginationResponse_zero\<rparr> \<and>
   PaginatedAPIResponseWithCustomFilter amd64_indef
      \<lparr>BindPagination_method = Some (\<lambda>ctx f. BindPagination ctx), Validate_method = None,
       GetPagination = (\<lambda>f. f), GetIncludes = (\<lambda>f. [])\<rparr>
      (\<lambda>ctx f. (f, if Atoi (Query ctx ''id'') = None then Some ''invalid syntax'' else None))
      PaginatedQuery_spec
      \<lparr>Count = (\<lambda>b p. Inr 1), Fetch = (\<lambda>b p i. Inr [''Bali''])\<rparr>
      [''id'' \<mapsto> ''abc''] (BindPagination Map.empty) ''Provinces retrieved successfully'' =
     \<lparr>Code = 500, Status = ''error'',
      Message = ''Internal Server Error: invalid syntax'',
      Data = None, Pagination = PaginationResponse_zero\<rparr>"
    using abc binding_error_rejects
      [THEN conjunct2, THEN conjunct2, THEN conjunct2, THEN conjunct2, THEN conjunct1,
        rule_format,
        where ctx = "[''id'' \<mapsto> ''abc'']"
        and ShouldBindQuery =
          "\<lambda>ctx f. (f, if Atoi (Query ctx ''id'') = None then Some ''invalid syntax'' else None)"
        and m = "\<lparr>BindPagination_method = Some (\<lambda>ctx f. BindPagination ctx),
          Validate_method = None, GetPagination = (\<lambda>f. f), GetIncludes = (\<lambda>f. [])\<rparr>"
        and filter' = "BindPagination Map.empty" and indef = amd64_indef
        and message = "''Provinces retrieved successfully''"
        and queryFunc = "\<lambda>f. (f, [''Bali''], 1, None)"
        and PaginatedQuery = PaginatedQuery_spec
        and db = "\<lparr>Count = (\<lambda>b p. Inr 1), Fetch = (\<lambda>b p i. Inr [''Bali''])\<rparr>"
        and e = "''invalid syntax''" and bound = "BindPagination [''id'' \<mapsto> ''abc'']"]
    by simp
  have answered: "PaginatedAPIResponseWithQueryLayer amd64_indef
      \<lparr>BindPagination_method = Some (\<lambda>ctx f. BindPagination ctx), Validate_method = None,
       GetPagination = (\<lambda>f. f), GetIncludes = (\<lambda>f. [])\<rparr>
      (\<lambda>ctx f. (f, if Atoi (Query ctx ''id'') = None then Some ''invalid syntax'' else None))
      [''id'' \<mapsto> ''7''] (BindPagination Map.empty) ''Provinces retrieved successfully''
      (\<lambda>f. (f, [''Bali''], 1, None)) =
     \<lparr>Code = 200, Status = ''success'', Message = ''Provinces retrieved successfully'',
      Data = Some [''Bali''],
      Pagination = CalculatePagination amd64_indef (BindPagination [''id'' \<mapsto> ''7'']) 1\<rparr>"
    using seven binding_error_rejects
      [THEN conjunct2, THEN conjunct2, THEN conjunct2, THEN conjunct2, THEN conjunct2,
        rule_format,
        where ctx = "[''id'' \<mapsto> ''7'']"
        and ShouldBindQuery =
          "\<lambda>ctx f. (f, if Atoi (Query ctx ''id'') = None then Some ''invalid syntax'' else None)"
        and m = "\<lparr>BindPagination_method = Some (\<lambda>ctx f. BindPagination ctx),
          Validate_method = None, GetPagination = (\<lambda>f. f), GetIncludes = (\<lambda>f. [])\<rparr>"
        and filter' = "BindPagination Map.empty" and indef = amd64_indef
        and message = "''Provinces retrieved successfully''"
        and queryFunc = "\<lambda>f. (f, [''Bali''], 1, None)"
        and bound = "BindPagination [''id'' \<mapsto> ''7'']"
        and left = "BindPagination [''id'' \<mapsto> ''7'']"
        and rows = "[''Bali'']" and n = 1]
    by simp
  from rejected answered fields sort show ?thesis
    by (intro conjI) simp_all
qed

text \<open>
  \<open>ShouldBindQuery\<close> is gin's. In the first request below it stands for the binding of a
  filter with an \<open>int\<close> field \<open>id\<close>, which fails at \<open>id=abc\<close>; in the second for the binding
  of the \<open>bool\<close> field \<open>IsDisabled\<close> of \<open>PaginationRequest\<close> (\<open>form\<close> tag \<open>is_disabled\<close>) with
  \<open>strconv.ParseBool\<close>, which fails at \<open>is_disabled=maybe\<close>. \<open>BindPagination\<close> has bound both
  requests without an error before.
\<close>

theorem binding_error_counterexample:
  "Code (PaginatedAPIResponseWithQueryLayer amd64_indef
      \<lparr>BindPagination_method = Some (\<lambda>ctx f. BindPagination ctx), Validate_method = None,
       GetPagination = (\<lambda>f. f), GetIncludes = (\<lambda>f. [])\<rparr>
      (\<lambda>ctx f. (f, if Atoi (Query ctx ''id'') = None then Some ''invalid syntax'' else None))
      [''id'' \<mapsto> ''abc''] (BindPagination Map.empty) ''Provinces retrieved successfully''
      (\<lambda>f. (f, [''Bali''], 1, None))) = 400 \<and>
   Status (PaginatedAPIResponseWithQueryLayer amd64_indef
      \<lparr>BindPagination_method = Some (\<lambda>ctx f. BindPagination ctx), Validate_method = None,
       GetPagination = (\<lambda>f. f), GetIncludes = (\<lambda>f. [])\<rparr>
      (\<lambda>ctx f. (f, if Atoi (Query ctx ''id'') = None then Some ''invalid syntax'' else None))
      [''id'' \<mapsto> ''abc''] (BindPagination Map.empty) ''Provinces retrieved successfully''
      (\<lambda>f. (f, [''Bali''], 1, None))) = ''error'' \<and>
   Code (PaginatedAPIResponseWithQueryLayer amd64_indef
      \<lparr>BindPagination_method = Some (\<lambda>ctx f. BindPagination ctx), Validate_method = None,
       GetPagination = (\<lambda>f. f), GetIncludes = (\<lambda>f. [])\<rparr>
      (\<lambda>ctx f. (f, if Query ctx ''is_disabled'' \<in>
                       {'''', ''1'', ''t'', ''T'', ''TRUE'', ''true'', ''True'',
                        ''0'', ''f'', ''F'', ''FALSE'', ''false'', ''False''}
                     then None else Some ''invalid syntax''))
      [''is_disabled'' \<mapsto> ''maybe''] (BindPagination Map.empty)
      ''Provinces retrieved successfully''
      (\<lambda>f. (f, [''Bali''], 1, None))) = 400 \<and>
   BindPagination [''is_disabled'' \<mapsto> ''maybe''] =
     \<lparr>Page = 1, PerPage = 10, Search = '''', Sort = '''', Order = ''asc'', IsDisabled = False\<rparr>"
proof -
  have "Atoi (Query [''id'' \<mapsto> ''abc''] ''id'') = None"
    by (simp add: Query_def Atoi_def is_digit_def)
  moreover have "Query [''is_disabled'' \<mapsto> ''maybe''] ''is_disabled'' = ''maybe''"
    by (simp add: Query_def)
  moreover have "ToLower ''maybe'' = ''maybe''"
    by (simp add: ToLower_def)
  moreover have "Atoi '''' = None"
    by (rule Atoi_empty)
  moreover have "Query [''is_disabled'' \<mapsto> ''maybe''] key = ''''" if "key \<noteq> ''is_disabled''" for key
    using that by (simp add: Query_def)
  ultimately show ?thesis
    by (simp add: PaginatedAPIResponseWithQueryLayer_def NewPaginatedResponse_def
        BindPagination_eq)
qed

subsection \<open>Store errors\<close>

text \<open>
  C8. Whenever the executor \<open>PaginatedQuery\<close> returns an error, whatever rows and total it
  returns beside it, the operation aborts with that error and no page: \<open>PaginateModel\<close>,
  \<open>PaginateWithIncludes\<close>, \<open>PaginateWithFilter\<close>, \<open>QuickPaginate\<close> and (once the filter's
  parameters are bound) \<open>PaginateWithCustomFilter\<close> return no rows, the zero
  \<open>PaginationResponse\<close> and the error; \<open>PaginatedAPIResponse\<close>,
  \<open>PaginatedAPIResponseWithIncludes\<close> and \<open>PaginatedAPIResponseWithCustomFilter\<close> return the
  envelope with code 500, status \<open>error\<close>, the message \<open>Internal Server Error: ...\<close>, no data
  and zero-valued pagination, and so does \<open>PaginatedAPIResponseWithQueryLayer\<close> when the
  caller's query function returns an error. The executor of the spec returns the store's
  error when the store fails at the count step, or when the count succeeds and the fetch
  fails; with it the helpers return that error, no rows and zero-valued pagination.
\<close>

theorem store_error_aborts:
  fixes PaginatedQuery :: "('d, SimpleQueryBuilder, 't) executor"
    and PaginatedQuery' :: "('d, 'f, 't) executor"
    and store :: "(SimpleQueryBuilder, 't) Store" and store' :: "('f, 't) Store"
  shows
  "(\<forall>left rows n.
      PaginatedQuery db (WithSearchFields (NewSimpleQueryBuilder tableName) searchFields)
        (BindPagination ctx) [] = (left, rows, n, Some e) \<longrightarrow>
      PaginateModel indef PaginatedQuery db ctx tableName searchFields =
        ([], PaginationResponse_zero, Some e) \<and>
      PaginatedAPIResponse indef PaginatedQuery db ctx tableName searchFields message =
        \<lparr>Code = 500, Status = ''error'', Message = ''Internal Server Error: '' @ e,
         Data = None, Pagination = PaginationResponse_zero\<rparr>) \<and>
   (\<forall>left rows n.
      PaginatedQuery db (WithSearchFields (NewSimpleQueryBuilder tableName) searchFields)
        (BindPagination ctx) includes = (left, rows, n, Some e) \<longrightarrow>
      PaginateWithIncludes indef PaginatedQuery db ctx tableName searchFields includes =
        ([], PaginationResponse_zero, Some e) \<and>
      PaginatedAPIResponseWithIncludes indef PaginatedQuery db ctx tableName searchFields
          includes message =
        \<lparr>Code = 500, Status = ''error'', Message = ''Internal Server Error: '' @ e,
         Data = None, Pagination = PaginationResponse_zero\<rparr>) \<and>
   (\<forall>left rows n.
      PaginatedQuery db
        (WithFilters (WithSearchFields (NewSimpleQueryBuilder tableName) searchFields)
           filterFunc)
        (BindPagination ctx) [] = (left, rows, n, Some e) \<longrightarrow>
      PaginateWithFilter indef PaginatedQuery db ctx tableName searchFields filterFunc =
        ([], PaginationResponse_zero, Some e)) \<and>
   (\<forall>left rows n.
      PaginatedQuery db (NewSimpleQueryBuilder tableName) (BindPagination ctx) [] =
        (left, rows, n, Some e) \<longrightarrow>
      QuickPaginate indef PaginatedQuery db ctx tableName =
        ([], PaginationResponse_zero, Some e)) \<and>
   (\<forall>bound left rows n.
      ShouldBindQuery ctx
        (case BindPagination_method m of Some bind \<Rightarrow> bind ctx filter' | None \<Rightarrow> filter') =
        (bound, None) \<and>
      PaginatedQuery' db bound (GetPagination m bound) (GetIncludes m bound) =
        (left, rows, n, Some e) \<longrightarrow>
      PaginateWithCustomFilter indef m ShouldBindQuery PaginatedQuery' db ctx filter' =
        ([], PaginationResponse_zero, Some e) \<and>
      PaginatedAPIResponseWithCustomFilter indef m ShouldBindQuery PaginatedQuery' db ctx filter'
          message =
        \<lparr>Code = 500, Status = ''error'', Message = ''Internal Server Error: '' @ e,
         Data = None, Pagination = PaginationResponse_zero\<rparr>) \<and>
   (\<forall>bound left rows n.
      ShouldBindQuery ctx
        (case BindPagination_method m of Some bind \<Rightarrow> bind ctx filter' | None \<Rightarrow> filter') =
        (bound, None) \<and>
      queryFunc (case Validate_method m of Some validate \<Rightarrow> validate bound | None \<Rightarrow> bound) =
        (left, rows, n, Some e) \<longrightarrow>
      PaginatedAPIResponseWithQueryLayer indef m ShouldBindQuery ctx filter' message queryFunc =
        \<lparr>Code = 500, Status = ''error'', Message = ''Internal Server Error: '' @ e,
         Data = None, Pagination = PaginationResponse_zero\<rparr>) \<and>
   (let builder = WithSearchFields (NewSimpleQueryBuilder tableName) searchFields
    in Count store builder (BindPagination ctx) = Inl e \<or>
       (\<exists>n. Count store builder (BindPagination ctx) = Inr n \<and>
            Fetch store builder (BindPagination ctx) [] = Inl e) \<longrightarrow>
       PaginatedQuery_spec store builder (BindPagination ctx) [] = (builder, [], 0, Some e) \<and>
       PaginateModel indef PaginatedQuery_spec store ctx tableName searchFields =
         ([], PaginationResponse_zero, Some e) \<and>
       PaginatedAPIResponse indef PaginatedQuery_spec store ctx tableName searchFields message =
         \<lparr>Code = 500, Status = ''error'', Message = ''Internal Server Error: '' @ e,
          Data = None, Pagination = PaginationResponse_zero\<rparr>) \<and>
   (\<forall>bound.
      ShouldBindQuery ctx
        (case BindPagination_method m of Some bind \<Rightarrow> bind ctx filter' | None \<Rightarrow> filter') =
        (bound, None) \<and>
      (Count store' bound (GetPagination m bound) = Inl e \<or>
       (\<exists>n. Count store' bound (GetPagination m bound) = Inr n \<and>
            Fetch store' bound (GetPagination m bound) (GetIncludes m bound) = Inl e)) \<longrightarrow>
      PaginateWithCustomFilter indef m ShouldBindQuery PaginatedQuery_spec store' ctx filter' =
        ([], PaginationResponse_zero, Some e) \<and>
      PaginatedAPIResponseWithCustomFilter indef m ShouldBindQuery PaginatedQuery_spec store' ctx
          filter' message =
        \<lparr>Code = 500, Status = ''error'', Message = ''Internal Server Error: '' @ e,
         Data = None, Pagination = PaginationResponse_zero\<rparr>)"
proof -
  have failed: "PaginatedQuery_spec s b p i = (b, [], 0, Some e)"
    if "Count s b p = Inl e \<or> (\<exists>n. Count s b p = Inr n \<and> Fetch s b p i = Inl e)"
    for s :: "('b, 't) Store" and b p i
    using that by (rule PaginatedQuery_spec_error)
  have model: "\<forall>left rows n.
      PaginatedQuery db (WithSearchFields (NewSimpleQueryBuilder tableName) searchFields)
        (BindPagination ctx) [] = (left, rows, n, Some e) \<longrightarrow>
      PaginateModel indef PaginatedQuery db ctx tableName searchFields =
        ([], PaginationResponse_zero, Some e) \<and>
      PaginatedAPIResponse indef PaginatedQuery db ctx tableName searchFields message =
        \<lparr>Code = 500, Status = ''error'', Message = ''Internal Server Error: '' @ e,
         Data = None, Pagination = PaginationResponse_zero\<rparr>"
    by (simp add: Let_def PaginateModel_def PaginatedAPIResponse_def NewPaginatedResponse_def)
  have with_includes: "\<forall>left rows n.
      PaginatedQuery db (WithSearchFields (NewSimpleQueryBuilder tableName) searchFields)
        (BindPagination ctx) includes = (left, rows, n, Some e) \<longrightarrow>
      PaginateWithIncludes indef PaginatedQuery db ctx tableName searchFields includes =
        ([], PaginationResponse_zero, Some e) \<and>
      PaginatedAPIResponseWithIncludes indef PaginatedQuery db ctx tableName searchFields
          includes message =
        \<lparr>Code = 500, Status = ''error'', Message = ''Internal Server Error: '' @ e,
         Data = None, Pagination = PaginationResponse_zero\<rparr>"
    by (simp add: Let_def PaginateWithIncludes_def PaginatedAPIResponseWithIncludes_def
        NewPaginatedResponse_def)
  have with_filter: "\<forall>left rows n.
      PaginatedQuery db
        (WithFilters (WithSearchFields (NewSimpleQueryBuilder tableName) searchFields)
           filterFunc)
        (BindPagination ctx) [] = (left, rows, n, Some e) \<longrightarrow>
      PaginateWithFilter indef PaginatedQuery db ctx tableName searchFields filterFunc =
        ([], PaginationResponse_zero, Some e)"
    by (simp add: Let_def PaginateWithFilter_def)
  have quick: "\<forall>left rows n.
      PaginatedQuery db (NewSimpleQueryBuilder tableName) (BindPagination ctx) [] =
        (left, rows, n, Some e) \<longrightarrow>
      QuickPaginate indef PaginatedQuery db ctx tableName =
        ([], PaginationResponse_zero, Some e)"
    by (simp add: Let_def QuickPaginate_def)
  have custom: "\<forall>bound left rows n.
      ShouldBindQuery ctx
        (case BindPagination_method m of Some bind \<Rightarrow> bind ctx filter' | None \<Rightarrow> filter') =
        (bound, None) \<and>
      ex d bound (GetPagination m bound) (GetIncludes m bound) = (left, rows, n, Some e) \<longrightarrow>
      PaginateWithCustomFilter indef m ShouldBindQuery ex d ctx filter' =
        ([], PaginationResponse_zero, Some e) \<and>
      PaginatedAPIResponseWithCustomFilter indef m ShouldBindQuery ex d ctx filter' message =
        \<lparr>Code = 500, Status = ''error'', Message = ''Internal Server Error: '' @ e,
         Data = None, Pagination = PaginationResponse_zero\<rparr>"
    for ex :: "('x, 'f, 't) executor" and d
    by (simp add: Let_def PaginateWithCustomFilter_def PaginatedAPIResponseWithCustomFilter_def
        NewPaginatedResponse_def)
  have layer: "\<forall>bound left rows n.
      ShouldBindQuery ctx
        (case BindPagination_method m of Some bind \<Rightarrow> bind ctx filter' | None \<Rightarrow> filter') =
        (bound, None) \<and>
      queryFunc (case Validate_method m of Some validate \<Rightarrow> validate bound | None \<Rightarrow> bound) =
        (left, rows, n, Some e) \<longrightarrow>
      PaginatedAPIResponseWithQueryLayer indef m ShouldBindQuery ctx filter' message queryFunc =
        \<lparr>Code = 500, Status = ''error'', Message = ''Internal Server Error: '' @ e,
         Data = None, Pagination = PaginationResponse_zero\<rparr>"
    by (simp add: PaginatedAPIResponseWithQueryLayer_def PaginatedQueryWithQueryLayer_def
        NewPaginatedResponse_def)
  have store_model: "let builder = WithSearchFields (NewSimpleQueryBuilder tableName) searchFields
    in Count store builder (BindPagination ctx) = Inl e \<or>
       (\<exists>n. Count store builder (BindPagination ctx) = Inr n \<and>
            Fetch store builder (BindPagination ctx) [] = Inl e) \<longrightarrow>
       PaginatedQuery_spec store builder (BindPagination ctx) [] = (builder, [], 0, Some e) \<and>
       PaginateModel indef PaginatedQuery_spec store ctx tableName searchFields =
         ([], PaginationResponse_zero, Some e) \<and>
       PaginatedAPIResponse indef PaginatedQuery_spec store ctx tableName searchFields message =
         \<lparr>Code = 500, Status = ''error'', Message = ''Internal Server Error: '' @ e,
          Data = None, Pagination = PaginationResponse_zero\<rparr>"
    by (auto simp add: Let_def failed PaginateModel_def PaginatedAPIResponse_def
        NewPaginatedResponse_def)
  have store_custom: "\<forall>bound.
      ShouldBindQuery ctx
        (case BindPagination_method m of Some bind \<Rightarrow> bind ctx filter' | None \<Rightarrow> filter') =
        (bound, None) \<and>
      (Count store' bound (GetPagination m bound) = Inl e \<or>
       (\<exists>n. Count store' bound (GetPagination m bound) = Inr n \<and>
            Fetch store' bound (GetPagination m bound) (GetIncludes m bound) = Inl e)) \<longrightarrow>
      PaginateWithCustomFilter indef m ShouldBindQuery PaginatedQuery_spec store' ctx filter' =
        ([], PaginationResponse_zero, Some e) \<and>
      PaginatedAPIResponseWithCustomFilter indef m ShouldBindQuery PaginatedQuery_spec store' ctx
          filter' message =
        \<lparr>Code = 500, Status = ''error'', Message = ''Internal Server Error: '' @ e,
         Data = None, Pagination = PaginationResponse_zero\<rparr>"
    by (auto simp add: Let_def failed PaginateWithCustomFilter_def
        PaginatedAPIResponseWithCustomFilter_def NewPaginatedResponse_def)
  from model with_includes with_filter quick custom [of PaginatedQuery' db] layer store_model
    store_custom
  show ?thesis
    by (intro conjI)
qed

theorem store_error_aborts_witness:
  "PaginateModel amd64_indef (\<lambda>db builder p i. (builder, [''Bali''], 1, Some ''connection lost''))
      () Map.empty ''provinces'' [''name'']
     = ([], PaginationResponse_zero, Some ''connection lost'') \<and>
   PaginatedAPIResponse amd64_indef
      (\<lambda>db builder p i. (builder, [''Bali''], 1, Some ''connection lost''))
      () Map.empty ''provinces'' [''name''] ''Provinces retrieved successfully''
     = \<lparr>Code = 500, Status = ''error'',
        Message = ''Internal Server Error: connection lost'',
        Data = None, Pagination = PaginationResponse_zero\<rparr> \<and>
   PaginateWithCustomFilter amd64_indef
      \<lparr>BindPagination_method = Some (\<lambda>ctx f. BindPagination ctx), Validate_method = None,
       GetPagination = (\<lambda>f. f), GetIncludes = (\<lambda>f. [])\<rparr>
      (\<lambda>ctx f. (f, None))
      (\<lambda>db f p i. (f, [''Bali''], 1, Some ''connection lost''))
      () Map.empty (BindPagination Map.empty)
     = ([], PaginationResponse_zero, Some ''connection lost'') \<and>
   PaginateModel amd64_indef PaginatedQuery_spec
      \<lparr>Count = (\<lambda>b p. Inl ''database is locked''), Fetch = (\<lambda>b p i. Inr [''Bali''])\<rparr>
      Map.empty ''provinces'' [''name'']
     = ([], PaginationResponse_zero, Some ''database is locked'') \<and>
   PaginatedAPIResponseWithCustomFilter amd64_indef
      \<lparr>BindPagination_method = Some (\<lambda>ctx f. BindPagination ctx), Validate_method = None,
       GetPagination = (\<lambda>f. f), GetIncludes = (\<lambda>f. [])\<rparr>
      (\<lambda>ctx f. (f, None)) PaginatedQuery_spec
      \<lparr>Count = (\<lambda>b p. Inr 5), Fetch = (\<lambda>b p i. Inl ''no such table: provinces'')\<rparr>
      Map.empty (BindPagination Map.empty) ''Provinces retrieved successfully''
     = \<lparr>Code = 500, Status = ''error'',
        Message = ''Internal Server Error: no such table: provinces'',
        Data = (None :: string list option), Pagination = PaginationResponse_zero\<rparr>"
proof -
  have partial_page: "PaginateModel amd64_indef
      (\<lambda>db builder p i. (builder, [''Bali''], 1, Some ''connection lost''))
      () Map.empty ''provinces'' [''name'']
     = ([], PaginationResponse_zero, Some ''connection lost'') \<and>
   PaginatedAPIResponse amd64_indef
      (\<lambda>db builder p i. (builder, [''Bali''], 1, Some ''connection lost''))
      () Map.empty ''provinces'' [''name''] ''Provinces retrieved successfully''
     = \<lparr>Code = 500, Status = ''error'',
        Message = ''Internal Server Error: connection lost'',
        Data = None, Pagination = PaginationResponse_zero\<rparr>"
    using store_error_aborts
      [THEN conjunct1, rule_format,
        where PaginatedQuery =
          "\<lambda>db builder p i. (builder, [''Bali''], 1, Some ''connection lost'')"
        and db = "()" and ctx = Map.empty and tableName = "''provinces''"
        and searchFields = "[''name'']" and e = "''connection lost''"
        and indef = amd64_indef and message = "''Provinces retrieved successfully''"
        and left = "WithSearchFields (NewSimpleQueryBuilder ''provinces'') [''name'']"
        and rows = "[''Bali'']" and n = 1]
    by simp
  have partial_custom: "PaginateWithCustomFilter amd64_indef
      \<lparr>BindPagination_method = Some (\<lambda>ctx f. BindPagination ctx), Validate_method = None,
       GetPagination = (\<lambda>f. f), GetIncludes = (\<lambda>f. [])\<rparr>
      (\<lambda>ctx f. (f, None))
      (\<lambda>db f p i. (f, [''Bali''], 1, Some ''connection lost''))
      () Map.empty (BindPagination Map.empty)
     = ([], PaginationResponse_zero, Some ''connection lost'')"
    using store_error_aborts
      [THEN conjunct2, THEN conjunct2, THEN conjunct2, THEN conjunct2, THEN conjunct1,
        rule_format,
        where PaginatedQuery' = "\<lambda>db f p i. (f, [''Bali''], 1, Some ''connection lost'')"
        and db = "()" and ctx = Map.empty and e = "''connection lost''"
        and indef = amd64_indef
        and ShouldBindQuery = "\<lambda>ctx f. (f, None)"
        and m = "\<lparr>BindPagination_method = Some (\<lambda>ctx f. BindPagination ctx),
                  Validate_method = None, GetPagination = (\<lambda>f. f), GetIncludes = (\<lambda>f. [])\<rparr>"
        and filter' = "BindPagination Map.empty"
        and bound = "BindPagination Map.empty" and left = "BindPagination Map.empty"
        and rows = "[''Bali'']" and n = 1, THEN conjunct1]
    by simp
  have count_fails: "PaginateModel amd64_indef PaginatedQuery_spec
      \<lparr>Count = (\<lambda>b p. Inl ''database is locked''), Fetch = (\<lambda>b p i. Inr [''Bali''])\<rparr>
      Map.empty ''provinces'' [''name'']
     = ([], PaginationResponse_zero, Some ''database is locked'')"
    using store_error_aborts
      [where store = "\<lparr>Count = (\<lambda>b p. Inl ''database is locked''),
                       Fetch = (\<lambda>b p i. Inr [''Bali''])\<rparr>"
        and ctx = Map.empty and tableName = "''provinces''" and searchFields = "[''name'']"
        and e = "''database is locked''" and indef = amd64_indef,
        THEN conjunct2, THEN conjunct2, THEN conjunct2, THEN conjunct2, THEN conjunct2,
        THEN conjunct2, THEN conjunct1]
    by (simp add: Let_def)
  have fetch_fails: "PaginatedAPIResponseWithCustomFilter amd64_indef
      \<lparr>BindPagination_method = Some (\<lambda>ctx f. BindPagination ctx), Validate_method = None,
       GetPagination = (\<lambda>f. f), GetIncludes = (\<lambda>f. [])\<rparr>
      (\<lambda>ctx f. (f, None)) PaginatedQuery_spec
      \<lparr>Count = (\<lambda>b p. Inr 5), Fetch = (\<lambda>b p i. Inl ''no such table: provinces'')\<rparr>
      Map.empty (BindPagination Map.empty) ''Provinces retrieved successfully''
     = \<lparr>Code = 500, Status = ''error'',
        Message = ''Internal Server Error: no such table: provinces'',
        Data = (None :: string list option), Pagination = PaginationResponse_zero\<rparr>"
    using store_error_aborts
      [THEN conjunct2, THEN conjunct2, THEN conjunct2, THEN conjunct2, THEN conjunct2,
        THEN conjunct2, THEN conjunct2, rule_format,
        where store' = "\<lparr>Count = (\<lambda>b p. Inr 5),
                        Fetch = (\<lambda>b p i. Inl ''no such table: provinces'')\<rparr> ::
                          (PaginationRequest, string) Store"
        and ctx = Map.empty and e = "''no such table: provinces''" and indef = amd64_indef
        and message = "''Provinces retrieved successfully''"
        and ShouldBindQuery = "\<lambda>ctx f. (f, None)"
        and m = "\<lparr>BindPagination_method = Some (\<lambda>ctx f. BindPagination ctx),
                  Validate_method = None, GetPagination = (\<lambda>f. f), GetIncludes = (\<lambda>f. [])\<rparr>"
        and filter' = "BindPagination Map.empty" and bound = "BindPagination Map.empty",
        THEN conjunct2]
    by simp
  from partial_page partial_custom count_fails fetch_fails show ?thesis
    by (intro conjI) simp_all
qed

subsection \<open>Search without fields or term\<close>

text \<open>
  C9. With an empty list of search fields, or with an empty search term, the clause
  builder returns the query it was given: no condition is added.
\<close>

theorem CreateSearchableFilter_noop:
  "CreateSearchableFilter [] dialect query searchTerm = query \<and>
   CreateSearchableFilter searchFields dialect query '''' = query"
  by (simp add: CreateSearchableFilter_def)

theorem CreateSearchableFilter_noop_witness:
  "CreateSearchableFilter [] PostgreSQL [(''id = ?'', [StringArg ''7''])] ''john'' =
     [(''id = ?'', [StringArg ''7''])] \<and>
   CreateSearchableFilter [''name'', ''email''] MySQL [(''id = ?'', [StringArg ''7''])] '''' =
     [(''id = ?'', [StringArg ''7''])]"
  using CreateSearchableFilter_noop [of PostgreSQL "[(''id = ?'', [StringArg ''7''])]" "''john''"
      "[''name'', ''email'']"]
    CreateSearchableFilter_noop [of MySQL "[(''id = ?'', [StringArg ''7''])]" "''john''"
      "[''name'', ''email'']"]
  by simp

subsection \<open>The page number in the response\<close>

text \<open>
  C10. For every request that is not disabled, \<open>CalculatePagination\<close> copies the request's
  \<open>Page\<close> into the response as it is, without clamping it to the page range: with
  \<open>Page = 5\<close>, a total of 10 and \<open>PerPage = 10\<close> the response has \<open>Page = 5\<close> and
  \<open>MaxPage = 1\<close>.
\<close>

theorem CalculatePagination_Page_verbatim:
  "(\<not> IsDisabled pagination \<longrightarrow>
      PaginationResponse.Page (CalculatePagination indef pagination totalCount) =
        Page pagination) \<and>
   CalculatePagination indef
      \<lparr>Page = 5, PerPage = 10, Search = '''', Sort = '''', Order = ''asc'', IsDisabled = False\<rparr>
      10 =
     \<lparr>PaginationResponse.Page = 5, PerPage = 10, MaxPage = 1, Total = 10, IsDisabled = False\<rparr>"
proof -
  have "\<lceil>10 / 10 :: rat\<rceil> = 1" by simp
  then show ?thesis
    using CalculatePagination_enabled
      [of "\<lparr>Page = 5, PerPage = 10, Search = '''', Sort = '''', Order = ''asc'',
             IsDisabled = False\<rparr>" 10 indef]
    by (simp add: CalculatePagination_def Let_def)
qed

theorem CalculatePagination_Page_verbatim_witness:
  "PaginationResponse.Page (CalculatePagination amd64_indef
      \<lparr>Page = - 4, PerPage = 0, Search = '''', Sort = '''', Order = ''asc'', IsDisabled = False\<rparr>
      3) = - 4"
  using CalculatePagination_Page_verbatim
      [of "\<lparr>Page = - 4, PerPage = 0, Search = '''', Sort = '''', Order = ''asc'',
            IsDisabled = False\<rparr>" amd64_indef 3]
  by simp

end
